theory Spec2Isabelle
  imports Complex_Main
begin

section \<open>Data model (models/classificacao.model.ts, chat-message.component.ts)\<close>

text \<open>
  JavaScript strings are modelled as \<open>string\<close> read as UTF-8 bytes: a character outside
  ASCII is several \<open>char\<close>s. The separator \<open>.\<close>, the letters of the extension allowlist
  and the decimal digits are ASCII, and no byte of a multi-byte UTF-8 sequence is an ASCII
  byte, so splitting at \<open>.\<close>, membership in the allowlist and substring containment read
  the same on bytes as on UTF-16 code units.
\<close>

datatype CategoriaEmail = Produtivo | Improdutivo

datatype AIProvider = Openai | Gemini

record ClassificacaoResultado =
  categoria :: CategoriaEmail
  confianca :: real
  resposta_sugerida :: string

record ProviderInfo =
  available :: bool
  model :: string

record ProvidersResponse =
  default_provider :: AIProvider
  openai :: ProviderInfo
  gemini :: ProviderInfo

text \<open>The browser's \<open>File\<close>: only its name and its size in bytes are read by the code.\<close>

record File =
  name :: string
  size_file :: nat

datatype Tipo = User | Ai

record Arquivo =
  nome :: string
  tamanho :: nat

text \<open>
  \<open>ChatMessage\<close>: a field marked optional in the interface (\<open>conteudo?\<close>, \<open>arquivo?\<close>, ...)
  is an \<open>option\<close>, \<open>None\<close> standing for the absent property. The field \<open>id\<close> is named
  \<open>id_msg\<close> here; \<open>timestamp\<close> is the clock reading of \<open>new Date()\<close> in milliseconds.
\<close>

record ChatMessage =
  id_msg :: string
  tipo :: Tipo
  conteudo :: "string option"
  arquivo :: "Arquivo option"
  resultado :: "ClassificacaoResultado option"
  provider :: "AIProvider option"
  timestamp :: nat
  carregando :: "bool option"
  emailOriginal :: "string option"

text \<open>
  The error handed to the \<open>error\<close> callback of an HTTP call (Angular's
  \<open>HttpErrorResponse\<close>): its \<open>error\<close> property is the response body, absent for a
  transport failure; the body may carry a \<open>detail\<close>, a string in the error responses of
  the backend. A body that is not an object, or an object without a \<open>detail\<close> property,
  reads as a body with no detail.
\<close>

record ErrorBody =
  detail :: "string option"

record HttpErrorResponse =
  error :: "ErrorBody option"

section \<open>Number to string\<close>

text \<open>
  The template literal of \<open>gerarId\<close> renders two non-negative integers in decimal
  (\<open>Number.prototype.toString\<close>). The counter and the clock are modelled as \<open>nat\<close>.
\<close>

definition digito :: "nat \<Rightarrow> char" where
  "digito d = char_of (48 + d)"

fun toString :: "nat \<Rightarrow> string" where
  "toString n = (if n < 10 then [digito n] else toString (n div 10) @ [digito (n mod 10)])"

declare toString.simps [simp del]

section \<open>EmailClassifierChatComponent (email-classifier-chat.component.ts)\<close>

text \<open>
  The component's fields. The signals \<open>mensagens\<close>, \<open>carregando\<close>,
  \<open>providerSelecionado\<close> and \<open>providers\<close> hold their current value; the view child and
  the injected service carry no state of their own. The counter is a JavaScript number,
  modelled as \<open>nat\<close>. The log lives in the signal \<open>mensagens\<close> only: the class has no
  field or call for storage.
\<close>

record EmailClassifierChatComponent =
  mensagens :: "ChatMessage list"
  carregando :: bool
  providerSelecionado :: AIProvider
  providers :: "ProvidersResponse option"
  shouldScrollToBottom :: bool
  messageIdCounter :: nat

text \<open>The field initialisers of the class.\<close>

definition novoComponente :: EmailClassifierChatComponent where
  "novoComponente =
     \<lparr>mensagens = [], carregando = False, providerSelecionado = Openai, providers = None,
      shouldScrollToBottom = False, messageIdCounter = 0\<rparr>"

text \<open>
  An HTTP call issued through \<open>EmailService\<close>, together with what the two callbacks
  passed to \<open>subscribe\<close> have captured: the id of the loading message and the provider.
\<close>

datatype Requisicao =
    ClassificarPorTexto string AIProvider
  | ClassificarPorArquivo File AIProvider

record Subscricao =
  requisicao :: Requisicao
  messageId :: string
  provider_cb :: AIProvider

text \<open>
  The clock readings of one submission, in evaluation order: \<open>Date.now()\<close> inside the
  first \<open>gerarId\<close>, \<open>new Date()\<close> of the user message, \<open>Date.now()\<close> inside the second
  \<open>gerarId\<close>, \<open>new Date()\<close> of the loading message.
\<close>

record Relogio =
  now_user :: nat
  date_user :: nat
  now_ai :: nat
  date_ai :: nat

definition formatId :: "nat \<Rightarrow> nat \<Rightarrow> string" where
  "formatId c now = ''msg-'' @ toString c @ ''-'' @ toString now"

text \<open>\<open>gerarId\<close>: pre-increments the counter and returns the id with the new state.\<close>

definition gerarId :: "nat \<Rightarrow> EmailClassifierChatComponent \<Rightarrow> string \<times> EmailClassifierChatComponent" where
  "gerarId now s =
     (let c = messageIdCounter s + 1
      in (formatId c now, s\<lparr>messageIdCounter := c\<rparr>))"

definition onProviderChange :: "AIProvider \<Rightarrow> EmailClassifierChatComponent \<Rightarrow> EmailClassifierChatComponent" where
  "onProviderChange p s = s\<lparr>providerSelecionado := p\<rparr>"

text \<open>The two callbacks of \<open>carregarProviders\<close>.\<close>

definition carregarProviders_next :: "ProvidersResponse \<Rightarrow> EmailClassifierChatComponent \<Rightarrow> EmailClassifierChatComponent" where
  "carregarProviders_next ps s = s\<lparr>providers := Some ps, providerSelecionado := default_provider ps\<rparr>"

definition carregarProviders_error :: "EmailClassifierChatComponent \<Rightarrow> EmailClassifierChatComponent" where
  "carregarProviders_error s = s\<lparr>providerSelecionado := Openai\<rparr>"

definition ngAfterViewChecked :: "EmailClassifierChatComponent \<Rightarrow> EmailClassifierChatComponent" where
  "ngAfterViewChecked s = (if shouldScrollToBottom s then s\<lparr>shouldScrollToBottom := False\<rparr> else s)"

text \<open>
  \<open>onEnviarTexto\<close>: builds the user message and the loading message, appends both, sets
  the busy flag and issues the call. The result is the new state and the subscription.
\<close>

definition onEnviarTexto ::
  "string \<Rightarrow> AIProvider \<Rightarrow> Relogio \<Rightarrow> EmailClassifierChatComponent
     \<Rightarrow> EmailClassifierChatComponent \<times> Subscricao" where
  "onEnviarTexto data_conteudo data_provider clk s =
     (let (uid, s1) = gerarId (now_user clk) s;
          userMessage = \<lparr>id_msg = uid, tipo = User, conteudo = Some data_conteudo,
                          arquivo = None, resultado = None, provider = None,
                          timestamp = date_user clk, carregando = None,
                          emailOriginal = None\<rparr>;
          (aid, s2) = gerarId (now_ai clk) s1;
          aiLoadingMessage = \<lparr>id_msg = aid, tipo = Ai, conteudo = None,
                               arquivo = None, resultado = None, provider = Some data_provider,
                               timestamp = date_ai clk, carregando = Some True,
                               emailOriginal = Some data_conteudo\<rparr>
      in (s2\<lparr>mensagens := mensagens s2 @ [userMessage, aiLoadingMessage],
              EmailClassifierChatComponent.carregando := True,
              shouldScrollToBottom := True\<rparr>,
          \<lparr>requisicao = ClassificarPorTexto data_conteudo data_provider,
           messageId = aid, provider_cb = data_provider\<rparr>))"

definition onEnviarArquivo ::
  "File \<Rightarrow> AIProvider \<Rightarrow> Relogio \<Rightarrow> EmailClassifierChatComponent
     \<Rightarrow> EmailClassifierChatComponent \<times> Subscricao" where
  "onEnviarArquivo data_arquivo data_provider clk s =
     (let (uid, s1) = gerarId (now_user clk) s;
          userMessage = \<lparr>id_msg = uid, tipo = User, conteudo = None,
                          arquivo = Some \<lparr>nome = name data_arquivo, tamanho = size_file data_arquivo\<rparr>,
                          resultado = None, provider = None,
                          timestamp = date_user clk, carregando = None,
                          emailOriginal = None\<rparr>;
          (aid, s2) = gerarId (now_ai clk) s1;
          aiLoadingMessage = \<lparr>id_msg = aid, tipo = Ai, conteudo = None,
                               arquivo = None, resultado = None, provider = Some data_provider,
                               timestamp = date_ai clk, carregando = Some True,
                               emailOriginal = None\<rparr>
      in (s2\<lparr>mensagens := mensagens s2 @ [userMessage, aiLoadingMessage],
              EmailClassifierChatComponent.carregando := True,
              shouldScrollToBottom := True\<rparr>,
          \<lparr>requisicao = ClassificarPorArquivo data_arquivo data_provider,
           messageId = aid, provider_cb = data_provider\<rparr>))"

text \<open>
  \<open>handleSucesso\<close>: every message whose id is the given one is replaced by a copy with
  \<open>carregando: false\<close>, the result and the provider; the busy flag is cleared.
\<close>

definition handleSucesso ::
  "ClassificacaoResultado \<Rightarrow> string \<Rightarrow> AIProvider \<Rightarrow> EmailClassifierChatComponent
     \<Rightarrow> EmailClassifierChatComponent" where
  "handleSucesso res mid prov s =
     s\<lparr>mensagens :=
          map (\<lambda>msg. if id_msg msg = mid
                      then msg\<lparr>ChatMessage.carregando := Some False, resultado := Some res,
                               provider := Some prov\<rparr>
                      else msg)
              (mensagens s),
       EmailClassifierChatComponent.carregando := False,
       shouldScrollToBottom := True\<rparr>"

text \<open>
  \<open>error.error?.detail || 'Erro ao classificar email. Tente novamente.'\<close>: the detail when
  the body has one that is not the empty string (the empty string is falsy), else the
  default text.
\<close>

definition mensagemErro :: "HttpErrorResponse \<Rightarrow> string" where
  "mensagemErro err =
     (case error err of
        None \<Rightarrow> ''Erro ao classificar email. Tente novamente.''
      | Some body \<Rightarrow>
          (case detail body of
             None \<Rightarrow> ''Erro ao classificar email. Tente novamente.''
           | Some d \<Rightarrow> if d = [] then ''Erro ao classificar email. Tente novamente.'' else d))"

text \<open>The prefix of the error text: the cross mark U+274C in UTF-8, then \<open> Erro: \<close>.\<close>

definition prefixoErro :: string where
  "prefixoErro = [CHR 0xE2, CHR 0x9D, CHR 0x8C] @ '' Erro: ''"

definition handleErro ::
  "HttpErrorResponse \<Rightarrow> string \<Rightarrow> EmailClassifierChatComponent \<Rightarrow> EmailClassifierChatComponent" where
  "handleErro err mid s =
     s\<lparr>mensagens :=
          map (\<lambda>msg. if id_msg msg = mid
                      then msg\<lparr>ChatMessage.carregando := Some False,
                               resultado := Some \<lparr>categoria = Improdutivo, confianca = 0,
                                                  resposta_sugerida = prefixoErro @ mensagemErro err\<rparr>\<rparr>
                      else msg)
              (mensagens s),
       EmailClassifierChatComponent.carregando := False\<rparr>"

section \<open>ChatInputComponent (chat-input.component.ts)\<close>

text \<open>
  \<open>String.prototype.split\<close> with a one-character separator: the pieces between the
  occurrences of the separator, never an empty array (the empty string splits into one
  empty piece).
\<close>

fun split_str :: "char \<Rightarrow> string \<Rightarrow> string list" where
  "split_str sep [] = [[]]"
| "split_str sep (c # cs) =
     (if c = sep then [] # split_str sep cs
      else (case split_str sep cs of
              [] \<Rightarrow> [[c]]
            | p # ps \<Rightarrow> (c # p) # ps))"

text \<open>\<open>Array.prototype.pop\<close>, read for its result: the last element, \<open>undefined\<close> on an empty array.\<close>

definition pop :: "'a list \<Rightarrow> 'a option" where
  "pop xs = (if xs = [] then None else Some (last xs))"

text \<open>
  \<open>toLowerCase\<close> on the bytes of the string: an ASCII capital becomes its small letter,
  every other byte stays. (On a letter outside ASCII JavaScript may change the letter; the
  only ASCII letters it can produce from one are \<open>k\<close> and \<open>i\<close>, and neither occurs in
  an allowed extension, so membership in the allowlist reads the same.)
\<close>

definition lower_char :: "char \<Rightarrow> char" where
  "lower_char c =
     (if (65::nat) \<le> of_char c \<and> of_char c \<le> (90::nat) then char_of (of_char c + (32::nat)) else c)"

definition toLowerCase :: "string \<Rightarrow> string" where
  "toLowerCase s = map lower_char s"

text \<open>
  The white space and line terminators of JavaScript, each as its UTF-8 bytes: tab, line
  feed, vertical tab, form feed, carriage return, space, U+00A0, U+1680, U+2000 to
  U+200A, U+2028, U+2029, U+202F, U+205F, U+3000 and U+FEFF.
\<close>

definition espacos :: "string list" where
  "espacos =
     [[CHR 0x09], [CHR 0x0A], [CHR 0x0B], [CHR 0x0C], [CHR 0x0D], [CHR 0x20],
      [CHR 0xC2, CHR 0xA0],
      [CHR 0xE1, CHR 0x9A, CHR 0x80],
      [CHR 0xE2, CHR 0x80, CHR 0x80], [CHR 0xE2, CHR 0x80, CHR 0x81],
      [CHR 0xE2, CHR 0x80, CHR 0x82], [CHR 0xE2, CHR 0x80, CHR 0x83],
      [CHR 0xE2, CHR 0x80, CHR 0x84], [CHR 0xE2, CHR 0x80, CHR 0x85],
      [CHR 0xE2, CHR 0x80, CHR 0x86], [CHR 0xE2, CHR 0x80, CHR 0x87],
      [CHR 0xE2, CHR 0x80, CHR 0x88], [CHR 0xE2, CHR 0x80, CHR 0x89],
      [CHR 0xE2, CHR 0x80, CHR 0x8A],
      [CHR 0xE2, CHR 0x80, CHR 0xA8], [CHR 0xE2, CHR 0x80, CHR 0xA9],
      [CHR 0xE2, CHR 0x80, CHR 0xAF],
      [CHR 0xE2, CHR 0x81, CHR 0x9F],
      [CHR 0xE3, CHR 0x80, CHR 0x80],
      [CHR 0xEF, CHR 0xBB, CHR 0xBF]]"

text \<open>Whether the second string starts with the first.\<close>

fun comeca_com :: "string \<Rightarrow> string \<Rightarrow> bool" where
  "comeca_com [] s = True"
| "comeca_com (x # xs) [] = False"
| "comeca_com (x # xs) (y # ys) = (x = y \<and> comeca_com xs ys)"

text \<open>
  The string without the run of characters from \<open>ws\<close> at its start: while the string
  starts with one of them, that one is dropped.
\<close>

fun tirar_espacos :: "string list \<Rightarrow> string \<Rightarrow> string" where
  "tirar_espacos ws [] = []"
| "tirar_espacos ws (c # cs) =
     (case find (\<lambda>w. w \<noteq> [] \<and> comeca_com w (c # cs)) ws of
        None \<Rightarrow> c # cs
      | Some w \<Rightarrow> tirar_espacos ws (drop (length w - 1) cs))"

text \<open>
  \<open>String.prototype.trim\<close>: the white space at the start is removed, then the white
  space at the end (on the reversed string, with each encoding reversed; in well-formed
  UTF-8 a string ends with the bytes of a white space character only when it ends with
  that character).
\<close>

definition trim :: "string \<Rightarrow> string" where
  "trim s = rev (tirar_espacos (map rev espacos) (rev (tirar_espacos espacos s)))"

text \<open>
  The component's own state. Its inputs \<open>providers\<close>, \<open>providerSelecionado\<close> and
  \<open>carregando\<close> are bound by the parent and are parameters of the operations below.
\<close>

record ChatInputComponent =
  conteudoEmail :: string
  arquivoSelecionado :: "File option"
  menuProviderAberto :: bool
  erro :: "string option"

definition novoChatInput :: ChatInputComponent where
  "novoChatInput = \<lparr>conteudoEmail = [], arquivoSelecionado = None, menuProviderAberto = False, erro = None\<rparr>"

definition podeEnviar :: "bool \<Rightarrow> ChatInputComponent \<Rightarrow> bool" where
  "podeEnviar carregando_in s =
     (\<not> carregando_in \<and> (length (trim (conteudoEmail s)) > 0 \<or> arquivoSelecionado s \<noteq> None))"

definition formatosSuportados :: "string list" where
  "formatosSuportados = [''txt'', ''pdf'', ''eml'', ''msg'', ''mbox'']"

text \<open>The two error texts; each has one letter outside ASCII, written as its two bytes.\<close>

definition erroFormato :: string where
  "erroFormato = ''Formato n'' @ [CHR 0xC3, CHR 0xA3] @ ''o suportado. Use arquivos .txt, .pdf, .eml, .msg ou .mbox''"

definition erroTamanho :: string where
  "erroTamanho = ''Arquivo muito grande. Tamanho m'' @ [CHR 0xC3, CHR 0xA1] @ ''ximo: 5MB''"

text \<open>
  \<open>onArquivoSelecionado\<close>, given \<open>input.files\<close> (\<open>None\<close> for \<open>null\<close>). A rejected file sets
  \<open>erro\<close> and returns; an accepted one is staged, the text is emptied and \<open>erro\<close> is cleared.
  With no file in the list nothing changes. (The reset of the DOM element's value is not
  part of the component's state.)
\<close>

definition onArquivoSelecionado :: "File list option \<Rightarrow> ChatInputComponent \<Rightarrow> ChatInputComponent" where
  "onArquivoSelecionado files s =
     (case files of
        Some (arq # _) \<Rightarrow>
          (let extensao = map_option toLowerCase (pop (split_str CHR ''.'' (name arq)))
           in if (case extensao of None \<Rightarrow> True
                  | Some e \<Rightarrow> e = [] \<or> e \<notin> set formatosSuportados)
              then s\<lparr>erro := Some erroFormato\<rparr>
              else if size_file arq > 5 * 1024 * 1024
              then s\<lparr>erro := Some erroTamanho\<rparr>
              else s\<lparr>arquivoSelecionado := Some arq, conteudoEmail := [], erro := None\<rparr>)
      | _ \<Rightarrow> s)"

definition limparArquivo :: "ChatInputComponent \<Rightarrow> ChatInputComponent" where
  "limparArquivo s = s\<lparr>arquivoSelecionado := None\<rparr>"

definition toggleMenuProvider :: "ChatInputComponent \<Rightarrow> ChatInputComponent" where
  "toggleMenuProvider s = s\<lparr>menuProviderAberto := \<not> menuProviderAberto s\<rparr>"

definition fecharMenu :: "ChatInputComponent \<Rightarrow> ChatInputComponent" where
  "fecharMenu s = s\<lparr>menuProviderAberto := False\<rparr>"

text \<open>What the component emits to its parent through its outputs.\<close>

datatype Emissao =
    EnviarTexto string AIProvider
  | EnviarArquivo File AIProvider
  | ProviderChange AIProvider

definition selecionarProvider :: "AIProvider \<Rightarrow> ChatInputComponent \<Rightarrow> ChatInputComponent \<times> Emissao" where
  "selecionarProvider p s = (s\<lparr>menuProviderAberto := False\<rparr>, ProviderChange p)"

text \<open>
  \<open>enviar\<close>, given the current values of the inputs \<open>carregando\<close> and
  \<open>providerSelecionado\<close>: nothing when \<open>podeEnviar\<close> is false; else the staged file if
  there is one (and the file is unstaged), else the trimmed text (and the text is emptied).
\<close>

definition enviar :: "bool \<Rightarrow> AIProvider \<Rightarrow> ChatInputComponent \<Rightarrow> ChatInputComponent \<times> Emissao option" where
  "enviar carregando_in provider_in s =
     (if \<not> podeEnviar carregando_in s then (s, None)
      else (case arquivoSelecionado s of
              Some arq \<Rightarrow> (s\<lparr>arquivoSelecionado := None\<rparr>, Some (EnviarArquivo arq provider_in))
            | None \<Rightarrow> (s\<lparr>conteudoEmail := []\<rparr>, Some (EnviarTexto (trim (conteudoEmail s)) provider_in))))"

section \<open>The session: the component and its calls in flight\<close>

text \<open>
  The outcome of an HTTP call: the observable either emits once (\<open>next\<close>) or fails
  (\<open>error\<close>). The response to a file upload carries a \<open>nome_arquivo\<close> beside the fields
  of \<open>ClassificacaoResultado\<close>; \<open>handleSucesso\<close> takes it at the type
  \<open>ClassificacaoResultado\<close>, which is what \<open>Next\<close> holds.
\<close>

datatype Resposta =
    Next ClassificacaoResultado
  | Falha HttpErrorResponse

text \<open>The callbacks given to \<open>subscribe\<close> in \<open>onEnviarTexto\<close> and \<open>onEnviarArquivo\<close>.\<close>

definition resolver :: "Resposta \<Rightarrow> Subscricao \<Rightarrow> EmailClassifierChatComponent \<Rightarrow> EmailClassifierChatComponent" where
  "resolver r sub s =
     (case r of
        Next res \<Rightarrow> handleSucesso res (messageId sub) (provider_cb sub) s
      | Falha err \<Rightarrow> handleErro err (messageId sub) s)"

text \<open>
  A session is the component, the classify calls that have not completed yet (in the
  order they were issued), and whether the provider query of the constructor is still
  out. JavaScript runs one callback at a time, so a run of the session is a sequence of
  events, each handled to its end.
\<close>

record Sessao =
  chat :: EmailClassifierChatComponent
  emVoo :: "Subscricao list"
  providersEmVoo :: bool

text \<open>After the constructor: the fields initialised, \<open>carregarProviders\<close> called.\<close>

definition inicial :: Sessao where
  "inicial = \<lparr>chat = novoComponente, emVoo = [], providersEmVoo = True\<rparr>"

text \<open>
  The events. \<open>EvTexto\<close> and \<open>EvArquivo\<close> are calls of \<open>onEnviarTexto\<close> and
  \<open>onEnviarArquivo\<close>; \<open>EvResposta k r\<close> completes the \<open>k\<close>-th call in flight with \<open>r\<close>;
  \<open>EvProviders\<close> completes the provider query (\<open>None\<close> for a failure). \<open>EvEnviar inp\<close>
  is \<open>enviar\<close> of a chat input in state \<open>inp\<close> whose inputs \<open>carregando\<close> and
  \<open>providerSelecionado\<close> are the component's signals and whose outputs go to the
  component's handlers.
\<close>

datatype Evento =
    EvTexto string AIProvider Relogio
  | EvArquivo File AIProvider Relogio
  | EvResposta nat Resposta
  | EvProviderChange AIProvider
  | EvProviders "ProvidersResponse option"
  | EvAfterViewChecked
  | EvEnviar ChatInputComponent Relogio

definition remover :: "nat \<Rightarrow> 'a list \<Rightarrow> 'a list" where
  "remover k xs = take k xs @ drop (Suc k) xs"

definition emitir :: "Emissao \<Rightarrow> Relogio \<Rightarrow> Sessao \<Rightarrow> Sessao" where
  "emitir em clk s =
     (case em of
        EnviarTexto c p \<Rightarrow>
          (let (ch, sub) = onEnviarTexto c p clk (chat s) in s\<lparr>chat := ch, emVoo := emVoo s @ [sub]\<rparr>)
      | EnviarArquivo f p \<Rightarrow>
          (let (ch, sub) = onEnviarArquivo f p clk (chat s) in s\<lparr>chat := ch, emVoo := emVoo s @ [sub]\<rparr>)
      | ProviderChange p \<Rightarrow> s\<lparr>chat := onProviderChange p (chat s)\<rparr>)"

text \<open>One event; \<open>None\<close> when the event cannot happen in the state.\<close>

fun passo :: "Evento \<Rightarrow> Sessao \<Rightarrow> Sessao option" where
  "passo (EvTexto c p clk) s = Some (emitir (EnviarTexto c p) clk s)"
| "passo (EvArquivo f p clk) s = Some (emitir (EnviarArquivo f p) clk s)"
| "passo (EvResposta k r) s =
     (if k < length (emVoo s)
      then Some (s\<lparr>chat := resolver r (emVoo s ! k) (chat s), emVoo := remover k (emVoo s)\<rparr>)
      else None)"
| "passo (EvProviderChange p) s = Some (s\<lparr>chat := onProviderChange p (chat s)\<rparr>)"
| "passo (EvProviders r) s =
     (if providersEmVoo s
      then Some (s\<lparr>chat := (case r of Some ps \<Rightarrow> carregarProviders_next ps (chat s)
                                | None \<Rightarrow> carregarProviders_error (chat s)),
                   providersEmVoo := False\<rparr>)
      else None)"
| "passo EvAfterViewChecked s = Some (s\<lparr>chat := ngAfterViewChecked (chat s)\<rparr>)"
| "passo (EvEnviar inp clk) s =
     (case snd (enviar (carregando (chat s)) (providerSelecionado (chat s)) inp) of
        None \<Rightarrow> Some s
      | Some em \<Rightarrow> Some (emitir em clk s))"

fun executar :: "Evento list \<Rightarrow> Sessao \<Rightarrow> Sessao option" where
  "executar [] s = Some s"
| "executar (e # es) s = (case passo e s of None \<Rightarrow> None | Some s' \<Rightarrow> executar es s')"

text \<open>An event that reaches the component through the chat input, not by a direct call.\<close>

fun pela_entrada :: "Evento \<Rightarrow> bool" where
  "pela_entrada (EvTexto c p clk) = False"
| "pela_entrada (EvArquivo f p clk) = False"
| "pela_entrada e = True"

text \<open>A message that awaits its result.\<close>

definition pendente :: "ChatMessage \<Rightarrow> bool" where
  "pendente m = (tipo m = Ai \<and> ChatMessage.carregando m = Some True)"

text \<open>A message whose call has completed.\<close>

definition resolvida :: "ChatMessage \<Rightarrow> bool" where
  "resolvida m = (tipo m = Ai \<and> ChatMessage.carregando m = Some False)"

section \<open>The extension in the specification's words\<close>

text \<open>
  The specification takes the extension of a file name to be the substring after the
  last \<open>.\<close>. This definition reads those words directly (what follows the last dot:
  the longest suffix without a dot); it is compared below with what the code computes,
  \<open>split('.').pop()\<close>.
\<close>

definition apos_ultimo_ponto :: "string \<Rightarrow> string" where
  "apos_ultimo_ponto s = rev (takeWhile (\<lambda>c. c \<noteq> CHR ''.'') (rev s))"

section \<open>Predicates on events and sessions\<close>

text \<open>The range the specification gives for a confidence.\<close>

definition confianca_valida :: "ClassificacaoResultado \<Rightarrow> bool" where
  "confianca_valida r = (0 \<le> confianca r \<and> confianca r \<le> 1)"

text \<open>An event whose response, if it is a successful one, carries a confidence in range.\<close>

fun resposta_valida :: "Evento \<Rightarrow> bool" where
  "resposta_valida (EvResposta k (Next r)) = confianca_valida r"
| "resposta_valida e = True"

text \<open>
  The ids of the log are pairwise different, and each was made by \<open>gerarId\<close> from a
  counter value the component has already passed.
\<close>

definition ids_ok :: "Sessao \<Rightarrow> bool" where
  "ids_ok s =
     (distinct (map id_msg (mensagens (chat s))) \<and>
      (\<forall>m \<in> set (mensagens (chat s)).
         \<exists>c t. id_msg m = formatId c t \<and> c \<le> messageIdCounter (chat s)))"

text \<open>
  The calls in flight and the pending messages correspond: the calls have different
  message ids, each one's message is in the log and still pending, and every pending
  message has its call in flight.
\<close>

definition voo_ok :: "Sessao \<Rightarrow> bool" where
  "voo_ok s =
     (distinct (map messageId (emVoo s)) \<and>
      (\<forall>sub \<in> set (emVoo s).
         \<exists>m \<in> set (mensagens (chat s)). id_msg m = messageId sub \<and> pendente m \<and> resultado m = None) \<and>
      (\<forall>m \<in> set (mensagens (chat s)). pendente m \<longrightarrow> id_msg m \<in> messageId ` set (emVoo s)))"

text \<open>Every assistant message is either pending without a result or resolved with one.\<close>

definition log_ok :: "Sessao \<Rightarrow> bool" where
  "log_ok s =
     (\<forall>m \<in> set (mensagens (chat s)).
        tipo m = Ai \<longrightarrow> (pendente m \<and> resultado m = None) \<or> (resolvida m \<and> resultado m \<noteq> None))"

text \<open>Every result in the log has its confidence in range.\<close>

definition confiancas_ok :: "Sessao \<Rightarrow> bool" where
  "confiancas_ok s =
     (\<forall>m \<in> set (mensagens (chat s)). \<forall>r. resultado m = Some r \<longrightarrow> confianca_valida r)"

text \<open>At most one call is in flight, and the busy flag is set while one is.\<close>

definition gate_ok :: "Sessao \<Rightarrow> bool" where
  "gate_ok s = (length (emVoo s) \<le> 1 \<and> (emVoo s \<noteq> [] \<longrightarrow> carregando (chat s)))"

text \<open>
  The three shapes a step can have. A submission appends a user message and a pending
  message with the next two ids and puts one call in flight; a resolution rewrites the
  messages with the id of the \<open>k\<close>-th call and takes that call out; any other step leaves
  the log, the counter, the calls and the busy flag as they are.
\<close>

definition submissao :: "Sessao \<Rightarrow> Sessao \<Rightarrow> bool" where
  "submissao s s' =
     (\<exists>u a sub t1 t2.
        mensagens (chat s') = mensagens (chat s) @ [u, a] \<and>
        messageIdCounter (chat s') = messageIdCounter (chat s) + 2 \<and>
        id_msg u = formatId (messageIdCounter (chat s) + 1) t1 \<and>
        id_msg a = formatId (messageIdCounter (chat s) + 2) t2 \<and>
        tipo u = User \<and> resultado u = None \<and> pendente a \<and> resultado a = None \<and>
        emVoo s' = emVoo s @ [sub] \<and> messageId sub = id_msg a \<and>
        carregando (chat s'))"

definition resolucao :: "nat \<Rightarrow> (ClassificacaoResultado \<Rightarrow> bool) \<Rightarrow> Sessao \<Rightarrow> Sessao \<Rightarrow> bool" where
  "resolucao k P s s' =
     (k < length (emVoo s) \<and> emVoo s' = remover k (emVoo s) \<and>
      messageIdCounter (chat s') = messageIdCounter (chat s) \<and>
      \<not> carregando (chat s') \<and>
      (\<exists>g. mensagens (chat s') =
              map (\<lambda>m. if id_msg m = messageId (emVoo s ! k) then g m else m) (mensagens (chat s)) \<and>
            (\<forall>m. id_msg (g m) = id_msg m \<and> tipo (g m) = tipo m \<and>
                 ChatMessage.carregando (g m) = Some False \<and>
                 (\<exists>r. resultado (g m) = Some r \<and> P r))))"

definition neutro :: "Sessao \<Rightarrow> Sessao \<Rightarrow> bool" where
  "neutro s s' =
     (mensagens (chat s') = mensagens (chat s) \<and>
      messageIdCounter (chat s') = messageIdCounter (chat s) \<and>
      emVoo s' = emVoo s \<and>
      carregando (chat s') = carregando (chat s))"

section \<open>Example inputs\<close>

text \<open>Concrete inputs at which the theorems below are instantiated.\<close>

definition relogio_exemplo :: Relogio where
  "relogio_exemplo =
     \<lparr>now_user = 1700000000000, date_user = 1700000000000,
      now_ai = 1700000000001, date_ai = 1700000000001\<rparr>"

definition relogio_seguinte :: Relogio where
  "relogio_seguinte =
     \<lparr>now_user = 1700000005000, date_user = 1700000005000,
      now_ai = 1700000005001, date_ai = 1700000005001\<rparr>"

text \<open>The session after one text submission: two messages, one call in flight.\<close>

definition sessao_pendente :: Sessao where
  "sessao_pendente =
     emitir (EnviarTexto ''Preciso de ajuda com pedido #123'' Openai) relogio_exemplo inicial"

definition erro_rate_limited :: HttpErrorResponse where
  "erro_rate_limited = \<lparr>error = Some \<lparr>detail = Some ''rate limited''\<rparr>\<rparr>"

definition resultado_produtivo :: ClassificacaoResultado where
  "resultado_produtivo =
     \<lparr>categoria = Produtivo, confianca = 95 / 100, resposta_sugerida = ''Vamos verificar o pedido.''\<rparr>"

text \<open>A response whose confidence is outside the range of the specification.\<close>

definition resultado_fora_da_faixa :: ClassificacaoResultado where
  "resultado_fora_da_faixa =
     \<lparr>categoria = Produtivo, confianca = 3 / 2, resposta_sugerida = ''ok''\<rparr>"

text \<open>
  A session whose only call in flight names a message id that is not in the log: the
  log of \<open>sessao_pendente\<close>, and a call for the id made from counter 7.
\<close>

definition sessao_orfa :: Sessao where
  "sessao_orfa =
     sessao_pendente\<lparr>emVoo := [\<lparr>requisicao = ClassificarPorTexto ''antigo'' Gemini,
                                  messageId = formatId 7 1600000000000,
                                  provider_cb = Gemini\<rparr>]\<rparr>"

text \<open>A chat input with a typed text and no file.\<close>

definition entrada_exemplo :: ChatInputComponent where
  "entrada_exemplo = novoChatInput\<lparr>conteudoEmail := ''Preciso de ajuda com pedido #123''\<rparr>"

text \<open>One submission, answered with a confidence outside the range.\<close>

definition eventos_fora_da_faixa :: "Evento list" where
  "eventos_fora_da_faixa =
     [EvTexto ''Preciso de ajuda com pedido #123'' Openai relogio_exemplo,
      EvResposta 0 (Next resultado_fora_da_faixa)]"

text \<open>One submission, answered with a confidence in range.\<close>

definition eventos_na_faixa :: "Evento list" where
  "eventos_na_faixa =
     [EvTexto ''Preciso de ajuda com pedido #123'' Openai relogio_exemplo,
      EvResposta 0 (Next resultado_produtivo)]"

text \<open>
  Two submissions by direct calls of \<open>onEnviarTexto\<close>, the second while the first is
  still out; then the first call completes.
\<close>

definition eventos_concorrentes :: "Evento list" where
  "eventos_concorrentes =
     [EvTexto ''Preciso de ajuda com pedido #123'' Openai relogio_exemplo,
      EvTexto ''Feliz Natal'' Gemini relogio_seguinte,
      EvResposta 0 (Next resultado_produtivo)]"

section \<open>Runs of the chat input\<close>

text \<open>
  Modelled from the spec: the handler of text entry. The text area and its binding to
  \<open>conteudoEmail\<close> are in the template \<open>chat-input.component.html\<close>, which is not
  among the sources; the class has no method for it. The specification's contract for
  the chat input is that staging text clears a staged file.
\<close>

definition digitarTexto :: "string \<Rightarrow> ChatInputComponent \<Rightarrow> ChatInputComponent" where
  "digitarTexto t s = s\<lparr>conteudoEmail := t, arquivoSelecionado := None\<rparr>"

text \<open>
  What the user and the parent can do to the chat input: select files, type, remove the
  staged file, use the provider menu, and send (with the current values of the inputs
  \<open>carregando\<close> and \<open>providerSelecionado\<close>).
\<close>

datatype EventoEntrada =
    EntArquivo "File list option"
  | EntTexto string
  | EntLimparArquivo
  | EntToggleMenu
  | EntFecharMenu
  | EntSelecionarProvider AIProvider
  | EntEnviar bool AIProvider

fun passo_entrada :: "EventoEntrada \<Rightarrow> ChatInputComponent \<Rightarrow> ChatInputComponent" where
  "passo_entrada (EntArquivo files) s = onArquivoSelecionado files s"
| "passo_entrada (EntTexto t) s = digitarTexto t s"
| "passo_entrada EntLimparArquivo s = limparArquivo s"
| "passo_entrada EntToggleMenu s = toggleMenuProvider s"
| "passo_entrada EntFecharMenu s = fecharMenu s"
| "passo_entrada (EntSelecionarProvider p) s = fst (selecionarProvider p s)"
| "passo_entrada (EntEnviar c p) s = fst (enviar c p s)"

fun executar_entrada :: "EventoEntrada list \<Rightarrow> ChatInputComponent \<Rightarrow> ChatInputComponent" where
  "executar_entrada [] s = s"
| "executar_entrada (e # es) s = executar_entrada es (passo_entrada e s)"

text \<open>Text and file are not staged together.\<close>

definition exclusivo :: "ChatInputComponent \<Rightarrow> bool" where
  "exclusivo s = (conteudoEmail s = [] \<or> arquivoSelecionado s = None)"

section \<open>Evaluation of characters\<close>

text \<open>Facts that let the simplifier compute \<open>char_of\<close> and \<open>of_char\<close> on numerals.\<close>

lemmas char_eval = char_of_def bit_0 lower_char_def digito_def

section \<open>Splitting a file name at its dots\<close>

lemma split_str_not_Nil: "split_str sep s \<noteq> []"
  by (induction s) (auto split: list.splits)

lemma split_str_no_sep: "sep \<notin> set s \<Longrightarrow> split_str sep s = [s]"
  by (induction s) auto

lemma split_str_append:
  "\<exists>p ps. split_str sep (pre @ sep # rest) = p # ps @ split_str sep rest"
proof (induction pre)
  case Nil
  show ?case by simp
next
  case (Cons c pre)
  then obtain p ps where "split_str sep (pre @ sep # rest) = p # ps @ split_str sep rest"
    by blast
  then show ?case by (cases "c = sep") auto
qed

lemma last_split_str_append:
  "last (split_str sep (pre @ sep # rest)) = last (split_str sep rest)"
proof -
  obtain p ps where "split_str sep (pre @ sep # rest) = p # ps @ split_str sep rest"
    using split_str_append by blast
  then show ?thesis by (simp add: split_str_not_Nil)
qed

lemma pop_split_str_suffix:
  "sep \<notin> set ext \<Longrightarrow> pop (split_str sep (pre @ sep # ext)) = Some ext"
  by (simp add: pop_def split_str_not_Nil last_split_str_append split_str_no_sep)

lemma apos_ultimo_ponto_suffix:
  "CHR ''.'' \<notin> set ext \<Longrightarrow> apos_ultimo_ponto (pre @ CHR ''.'' # ext) = ext"
proof -
  assume "CHR ''.'' \<notin> set ext"
  then have "takeWhile (\<lambda>c. c \<noteq> CHR ''.'') (rev ext @ CHR ''.'' # rev pre) = rev ext"
    by (subst takeWhile_append2) auto
  then show ?thesis by (simp add: apos_ultimo_ponto_def)
qed

lemma apos_ultimo_ponto_no_dot:
  "CHR ''.'' \<notin> set s \<Longrightarrow> apos_ultimo_ponto s = s"
proof -
  assume "CHR ''.'' \<notin> set s"
  then have "takeWhile (\<lambda>c. c \<noteq> CHR ''.'') (rev s) = rev s"
    by (auto simp: takeWhile_eq_all_conv)
  then show ?thesis unfolding apos_ultimo_ponto_def by (simp only: rev_rev_ident)
qed

lemma pop_split_str_dot: "pop (split_str CHR ''.'' s) = Some (apos_ultimo_ponto s)"
proof (cases "CHR ''.'' \<in> set s")
  case True
  then obtain pre ext where "s = pre @ CHR ''.'' # ext" "CHR ''.'' \<notin> set ext"
    by (meson split_list_last)
  then show ?thesis
    by (simp add: pop_split_str_suffix apos_ultimo_ponto_suffix)
next
  case False
  then show ?thesis
    by (simp add: pop_def split_str_no_sep apos_ultimo_ponto_no_dot)
qed

lemma vazio_nao_suportado: "[] \<notin> set formatosSuportados"
  by (simp add: formatosSuportados_def)

lemma onArquivoSelecionado_eq:
  "onArquivoSelecionado (Some (f # fs)) s =
     (if toLowerCase (apos_ultimo_ponto (name f)) \<notin> set formatosSuportados
      then s\<lparr>erro := Some erroFormato\<rparr>
      else if size_file f > 5242880 then s\<lparr>erro := Some erroTamanho\<rparr>
      else s\<lparr>arquivoSelecionado := Some f, conteudoEmail := [], erro := None\<rparr>)"
  using vazio_nao_suportado
  by (auto simp: onArquivoSelecionado_def pop_split_str_dot)

section \<open>Message ids are determined by the counter\<close>

lemma of_char_digito: "d < 10 \<Longrightarrow> (of_char (digito d) :: nat) = 48 + d"
  by (simp add: digito_def)

lemma digito_inj: "a < 10 \<Longrightarrow> b < 10 \<Longrightarrow> digito a = digito b \<Longrightarrow> a = b"
proof -
  assume a: "a < 10" and b: "b < 10" and e: "digito a = digito b"
  from e have "(of_char (digito a) :: nat) = of_char (digito b)" by (rule arg_cong)
  then have "48 + a = 48 + b" by (simp only: of_char_digito[OF a] of_char_digito[OF b])
  then show "a = b" by (simp only: add_left_cancel)
qed

lemma digito_not_hyphen: "d < 10 \<Longrightarrow> digito d \<noteq> CHR ''-''"
proof
  assume d: "d < 10" and e: "digito d = CHR ''-''"
  from e have "(of_char (digito d) :: nat) = of_char CHR ''-''" by (rule arg_cong)
  then have "48 + d = (45::nat)" by (simp add: of_char_digito[OF d])
  then show False by simp
qed

lemma toString_not_Nil: "toString n \<noteq> []"
  by (subst toString.simps) simp

lemma hyphen_notin_toString: "CHR ''-'' \<notin> set (toString n)"
proof (induction n rule: toString.induct)
  case (1 n)
  show ?case
  proof (cases "n < 10")
    case True
    then show ?thesis using digito_not_hyphen[of n] by (subst toString.simps) auto
  next
    case False
    have "n mod 10 < 10" by simp
    then have "digito (n mod 10) \<noteq> CHR ''-''" by (rule digito_not_hyphen)
    with False 1 show ?thesis by (subst toString.simps) auto
  qed
qed

lemma toString_inj: "toString a = toString b \<Longrightarrow> a = b"
proof (induction a arbitrary: b rule: toString.induct)
  case (1 n)
  show ?case
  proof (cases "n < 10")
    case True
    show ?thesis
    proof (cases "b < 10")
      case bT: True
      from 1(2) True bT have "digito n = digito b"
        by (simp add: toString.simps)
      then show ?thesis using True bT by (rule_tac digito_inj)
    next
      case bF: False
      from 1(2) True bF have "[digito n] = toString (b div 10) @ [digito (b mod 10)]"
        by (simp add: toString.simps)
      then have "toString (b div 10) = []" by simp
      then show ?thesis using toString_not_Nil by blast
    qed
  next
    case False
    show ?thesis
    proof (cases "b < 10")
      case bT: True
      from 1(2) False bT have "toString (n div 10) @ [digito (n mod 10)] = [digito b]"
        by (simp add: toString.simps)
      then have "toString (n div 10) = []" by simp
      then show ?thesis using toString_not_Nil by blast
    next
      case bF: False
      from 1(2) False bF
      have "toString (n div 10) @ [digito (n mod 10)] = toString (b div 10) @ [digito (b mod 10)]"
        by (simp add: toString.simps)
      then have e1: "toString (n div 10) = toString (b div 10)"
        and e2: "digito (n mod 10) = digito (b mod 10)" by simp_all
      from 1(1)[OF False e1] have d: "n div 10 = b div 10" .
      have m: "n mod 10 = b mod 10" using e2 by (intro digito_inj) simp_all
      from d m show ?thesis by (metis div_mult_mod_eq)
    qed
  qed
qed

lemma formatId_inj: "formatId c t = formatId c' t' \<Longrightarrow> c = c' \<and> t = t'"
proof -
  assume "formatId c t = formatId c' t'"
  then have "toString c @ CHR ''-'' # toString t = toString c' @ CHR ''-'' # toString t'"
    by (simp add: formatId_def)
  then have "toString c = toString c' \<and> toString t = toString t'"
    using hyphen_notin_toString append_Cons_eq_iff by metis
  then show ?thesis using toString_inj by blast
qed

section \<open>The shape of each step\<close>

lemma emitir_texto_submissao: "submissao s (emitir (EnviarTexto c p) clk s)"
  unfolding submissao_def emitir_def onEnviarTexto_def gerarId_def
  by (auto simp: Let_def pendente_def)

lemma emitir_arquivo_submissao: "submissao s (emitir (EnviarArquivo f p) clk s)"
  unfolding submissao_def emitir_def onEnviarArquivo_def gerarId_def
  by (auto simp: Let_def pendente_def)

lemma emitir_provider_neutro: "neutro s (emitir (ProviderChange p) clk s)"
  by (simp add: neutro_def emitir_def onProviderChange_def)

lemma emitir_shape:
  "submissao s (emitir em clk s) \<or> neutro s (emitir em clk s)"
  by (cases em) (simp_all add: emitir_texto_submissao emitir_arquivo_submissao emitir_provider_neutro)

lemma resolver_resolucao:
  assumes k: "k < length (emVoo s)"
    and ok: "\<And>res. r = Next res \<Longrightarrow> P res"
    and syn: "\<And>err. P \<lparr>categoria = Improdutivo, confianca = 0,
                          resposta_sugerida = prefixoErro @ mensagemErro err\<rparr>"
  shows "resolucao k P s (s\<lparr>chat := resolver r (emVoo s ! k) (chat s), emVoo := remover k (emVoo s)\<rparr>)"
proof (cases r)
  case (Next res)
  then have "P res" by (rule ok)
  then show ?thesis
    unfolding resolucao_def resolver_def handleSucesso_def using k Next
    by (auto intro!: exI[of _ "\<lambda>msg. msg\<lparr>ChatMessage.carregando := Some False, resultado := Some res,
                               provider := Some (provider_cb (emVoo s ! k))\<rparr>"])
next
  case (Falha err)
  show ?thesis
    unfolding resolucao_def resolver_def handleErro_def using k Falha syn[of err]
    by (auto intro!: exI[of _ "\<lambda>msg. msg\<lparr>ChatMessage.carregando := Some False,
                               resultado := Some \<lparr>categoria = Improdutivo, confianca = 0,
                                                  resposta_sugerida = prefixoErro @ mensagemErro err\<rparr>\<rparr>"])
qed

lemma passo_shape:
  assumes st: "passo e s = Some s'"
    and ok: "\<And>k res. e = EvResposta k (Next res) \<Longrightarrow> P res"
    and syn: "\<And>err. P \<lparr>categoria = Improdutivo, confianca = 0,
                          resposta_sugerida = prefixoErro @ mensagemErro err\<rparr>"
  shows "submissao s s' \<or> (\<exists>k. resolucao k P s s') \<or> neutro s s'"
proof (cases e)
  case (EvTexto c p clk)
  with st show ?thesis using emitir_texto_submissao by auto
next
  case (EvArquivo f p clk)
  with st show ?thesis using emitir_arquivo_submissao by auto
next
  case (EvResposta k r)
  with st have k: "k < length (emVoo s)"
    and s': "s' = s\<lparr>chat := resolver r (emVoo s ! k) (chat s), emVoo := remover k (emVoo s)\<rparr>"
    by (auto split: if_splits)
  have "resolucao k P s s'" unfolding s'
    using k ok EvResposta syn by (intro resolver_resolucao) auto
  then show ?thesis by blast
next
  case (EvProviderChange p)
  with st show ?thesis by (auto simp: neutro_def onProviderChange_def)
next
  case (EvProviders r)
  with st show ?thesis
    by (auto simp: neutro_def carregarProviders_next_def carregarProviders_error_def
        split: if_splits option.splits)
next
  case EvAfterViewChecked
  with st have "neutro s s'" by (cases "shouldScrollToBottom (chat s)") (auto simp: neutro_def ngAfterViewChecked_def)
  then show ?thesis by blast
next
  case (EvEnviar inp clk)
  with st show ?thesis using emitir_shape[of s _ clk]
    by (auto simp: neutro_def split: option.splits)
qed

section \<open>Taking a call out of the list of calls in flight\<close>

lemma set_remover_subset: "set (remover k xs) \<subseteq> set xs"
  unfolding remover_def using set_take_subset[of k xs] set_drop_subset[of "Suc k" xs] by auto

lemma distinct_map_remover: "distinct (map f xs) \<Longrightarrow> distinct (map f (remover k xs))"
proof -
  assume d: "distinct (map f xs)"
  let ?ys = "map f xs"
  have "distinct (take k ?ys @ drop k ?ys)" using d by simp
  then have "set (take k ?ys) \<inter> set (drop k ?ys) = {}" and "distinct (take k ?ys)"
    by (simp_all only: distinct_append)
  moreover have "set (drop (Suc k) ?ys) \<subseteq> set (drop k ?ys)"
    by (rule set_drop_subset_set_drop) simp
  moreover have "distinct (drop (Suc k) ?ys)" using d by simp
  ultimately have "distinct (take k ?ys @ drop (Suc k) ?ys)"
    by (simp only: distinct_append) blast
  then show ?thesis by (simp add: remover_def take_map drop_map)
qed

lemma map_split_nth:
  "k < length xs \<Longrightarrow> map f xs = map f (take k xs) @ f (xs ! k) # map f (drop (Suc k) xs)"
proof -
  assume k: "k < length xs"
  have "map f (take k xs @ xs ! k # drop (Suc k) xs) = map f xs"
    by (simp only: id_take_nth_drop[OF k, symmetric])
  then show ?thesis by simp
qed

lemma in_set_remover:
  "k < length xs \<Longrightarrow> x \<in> set xs \<Longrightarrow> f x \<noteq> f (xs ! k) \<Longrightarrow> x \<in> set (remover k xs)"
proof -
  assume k: "k < length xs" and x: "x \<in> set xs" and ne: "f x \<noteq> f (xs ! k)"
  have "set (map id xs) = set (map id (take k xs) @ id (xs ! k) # map id (drop (Suc k) xs))"
    by (simp only: map_split_nth[OF k, symmetric])
  then have "set xs = set (take k xs) \<union> {xs ! k} \<union> set (drop (Suc k) xs)" by simp
  with x ne show ?thesis by (auto simp: remover_def)
qed

lemma remover_other:
  "distinct (map f xs) \<Longrightarrow> k < length xs \<Longrightarrow> x \<in> set (remover k xs) \<Longrightarrow> f x \<noteq> f (xs ! k)"
proof
  assume d: "distinct (map f xs)" and k: "k < length xs" and x: "x \<in> set (remover k xs)"
    and eq: "f x = f (xs ! k)"
  have "distinct (map f (take k xs) @ f (xs ! k) # map f (drop (Suc k) xs))"
    using d by (simp only: map_split_nth[OF k, symmetric])
  then have a: "f (xs ! k) \<notin> f ` set (take k xs)" and b: "f (xs ! k) \<notin> f ` set (drop (Suc k) xs)"
    by simp_all
  from x consider "x \<in> set (take k xs)" | "x \<in> set (drop (Suc k) xs)"
    by (auto simp: remover_def)
  then show False
  proof cases
    case 1
    then have "f x \<in> f ` set (take k xs)" by (rule imageI)
    with a eq show False by metis
  next
    case 2
    then have "f x \<in> f ` set (drop (Suc k) xs)" by (rule imageI)
    with b eq show False by metis
  qed
qed

section \<open>Submissions preserve the invariants\<close>

lemma id_fresco:
  assumes "ids_ok s" and "messageIdCounter (chat s) < c"
  shows "formatId c t \<notin> id_msg ` set (mensagens (chat s))"
proof
  assume "formatId c t \<in> id_msg ` set (mensagens (chat s))"
  then obtain m where m: "m \<in> set (mensagens (chat s))" and e: "id_msg m = formatId c t" by auto
  from assms(1) m obtain c' t' where "id_msg m = formatId c' t'" and le: "c' \<le> messageIdCounter (chat s)"
    unfolding ids_ok_def by blast
  with e have "formatId c t = formatId c' t'" by simp
  then have "c = c'" using formatId_inj by blast
  with le assms(2) show False by simp
qed

lemma submissao_ids_ok:
  assumes sub: "submissao s s'" and ok: "ids_ok s"
  shows "ids_ok s'"
proof -
  let ?n = "messageIdCounter (chat s)"
  from sub obtain u a t1 t2 where
    log: "mensagens (chat s') = mensagens (chat s) @ [u, a]"
    and cnt: "messageIdCounter (chat s') = ?n + 2"
    and iu: "id_msg u = formatId (?n + 1) t1"
    and ia: "id_msg a = formatId (?n + 2) t2"
    unfolding submissao_def by blast
  have fu: "id_msg u \<notin> id_msg ` set (mensagens (chat s))"
    unfolding iu using ok by (rule id_fresco) simp
  have fa: "id_msg a \<notin> id_msg ` set (mensagens (chat s))"
    unfolding ia using ok by (rule id_fresco) simp
  have ne: "id_msg u \<noteq> id_msg a"
  proof
    assume "id_msg u = id_msg a"
    then have "formatId (?n + 1) t1 = formatId (?n + 2) t2" by (simp only: iu ia)
    then have "?n + 1 = ?n + 2" using formatId_inj by blast
    then show False by simp
  qed
  have d: "distinct (map id_msg (mensagens (chat s')))"
    using ok fu fa ne unfolding log ids_ok_def by simp
  have b: "\<exists>c t. id_msg m = formatId c t \<and> c \<le> messageIdCounter (chat s')"
    if "m \<in> set (mensagens (chat s'))" for m
  proof -
    from that consider "m \<in> set (mensagens (chat s))" | "m = u" | "m = a"
      unfolding log by auto
    then show ?thesis
    proof cases
      case 1
      with ok obtain c t where "id_msg m = formatId c t" "c \<le> ?n"
        unfolding ids_ok_def by blast
      then have "id_msg m = formatId c t \<and> c \<le> messageIdCounter (chat s')" by (simp add: cnt)
      then show ?thesis by blast
    next
      case 2
      then have "id_msg m = formatId (?n + 1) t1 \<and> ?n + 1 \<le> messageIdCounter (chat s')"
        by (simp add: iu cnt)
      then show ?thesis by blast
    next
      case 3
      then have "id_msg m = formatId (?n + 2) t2 \<and> ?n + 2 \<le> messageIdCounter (chat s')"
        by (simp add: ia cnt)
      then show ?thesis by blast
    qed
  qed
  from d b show ?thesis unfolding ids_ok_def by blast
qed

lemma submissao_voo_ok:
  assumes sub: "submissao s s'" and ok: "ids_ok s" and v: "voo_ok s"
  shows "voo_ok s'"
proof -
  let ?n = "messageIdCounter (chat s)"
  from sub obtain u a sb t1 t2 where
    log: "mensagens (chat s') = mensagens (chat s) @ [u, a]"
    and ia: "id_msg a = formatId (?n + 2) t2"
    and tu: "tipo u = User" and pa: "pendente a" and ra: "resultado a = None"
    and voo: "emVoo s' = emVoo s @ [sb]" and mid: "messageId sb = id_msg a"
    unfolding submissao_def by blast
  have fa: "id_msg a \<notin> id_msg ` set (mensagens (chat s))"
    unfolding ia using ok by (rule id_fresco) simp
  have old: "\<exists>m \<in> set (mensagens (chat s)). id_msg m = messageId x \<and> pendente m \<and> resultado m = None"
    if "x \<in> set (emVoo s)" for x
    using v that unfolding voo_ok_def by blast
  have "messageId sb \<notin> messageId ` set (emVoo s)"
  proof
    assume "messageId sb \<in> messageId ` set (emVoo s)"
    then obtain x where x: "x \<in> set (emVoo s)" and e: "messageId x = messageId sb" by auto
    from old[OF x] obtain m where "m \<in> set (mensagens (chat s))" "id_msg m = messageId x" by blast
    with e mid have "id_msg a \<in> id_msg ` set (mensagens (chat s))" by (metis imageI)
    with fa show False by simp
  qed
  then have d: "distinct (map messageId (emVoo s'))"
    using v unfolding voo voo_ok_def by simp
  have c1: "\<exists>m \<in> set (mensagens (chat s')). id_msg m = messageId x \<and> pendente m \<and> resultado m = None"
    if "x \<in> set (emVoo s')" for x
  proof -
    from that consider "x \<in> set (emVoo s)" | "x = sb" unfolding voo by auto
    then show ?thesis
    proof cases
      case 1
      from old[OF 1] show ?thesis unfolding log by auto
    next
      case 2
      then show ?thesis unfolding log using mid pa ra by simp
    qed
  qed
  have c2: "id_msg m \<in> messageId ` set (emVoo s')"
    if "m \<in> set (mensagens (chat s'))" and "pendente m" for m
  proof -
    from that(1) consider "m \<in> set (mensagens (chat s))" | "m = u" | "m = a"
      unfolding log by auto
    then show ?thesis
    proof cases
      case 1
      with v that(2) have "id_msg m \<in> messageId ` set (emVoo s)" unfolding voo_ok_def by blast
      then show ?thesis unfolding voo by auto
    next
      case 2
      with tu that(2) show ?thesis by (simp add: pendente_def)
    next
      case 3
      then show ?thesis unfolding voo using mid by simp
    qed
  qed
  from d c1 c2 show ?thesis unfolding voo_ok_def by blast
qed

lemma submissao_log_ok:
  assumes sub: "submissao s s'" and ok: "log_ok s"
  shows "log_ok s'"
proof -
  from sub obtain u a where
    log: "mensagens (chat s') = mensagens (chat s) @ [u, a]"
    and tu: "tipo u = User" and pa: "pendente a" and ra: "resultado a = None"
    unfolding submissao_def by blast
  show ?thesis
    using ok tu pa ra unfolding log_ok_def log by auto
qed

lemma submissao_confiancas_ok:
  assumes sub: "submissao s s'" and ok: "confiancas_ok s"
  shows "confiancas_ok s'"
proof -
  from sub obtain u a where
    log: "mensagens (chat s') = mensagens (chat s) @ [u, a]"
    and ru: "resultado u = None" and ra: "resultado a = None"
    unfolding submissao_def by blast
  show ?thesis
    using ok ru ra unfolding confiancas_ok_def log by auto
qed

section \<open>Resolutions and neutral steps preserve the invariants\<close>

lemma resolucao_ids_ok:
  assumes res: "resolucao k P s s'" and ok: "ids_ok s"
  shows "ids_ok s'"
proof -
  let ?mid = "messageId (emVoo s ! k)"
  from res obtain g where
    log: "mensagens (chat s') = map (\<lambda>m. if id_msg m = ?mid then g m else m) (mensagens (chat s))"
    and g: "\<And>m. id_msg (g m) = id_msg m"
    and cnt: "messageIdCounter (chat s') = messageIdCounter (chat s)"
    unfolding resolucao_def by blast
  have e: "map id_msg (mensagens (chat s')) = map id_msg (mensagens (chat s))"
    unfolding log by (simp add: g)
  from ok have "distinct (map id_msg (mensagens (chat s)))" unfolding ids_ok_def by blast
  then have d: "distinct (map id_msg (mensagens (chat s')))" by (simp only: e)
  have b: "\<exists>c t. id_msg m' = formatId c t \<and> c \<le> messageIdCounter (chat s')"
    if "m' \<in> set (mensagens (chat s'))" for m'
  proof -
    from that have "id_msg m' \<in> set (map id_msg (mensagens (chat s')))" by simp
    then have "id_msg m' \<in> set (map id_msg (mensagens (chat s)))" by (simp only: e)
    then obtain m where m: "m \<in> set (mensagens (chat s))" and im: "id_msg m = id_msg m'" by auto
    from ok m obtain c t where "id_msg m = formatId c t" and "c \<le> messageIdCounter (chat s)"
      unfolding ids_ok_def by blast
    then have "id_msg m' = formatId c t \<and> c \<le> messageIdCounter (chat s')"
      by (simp add: im cnt)
    then show ?thesis by blast
  qed
  from d b show ?thesis unfolding ids_ok_def by blast
qed

lemma resolucao_voo_ok:
  assumes res: "resolucao k P s s'" and v: "voo_ok s"
  shows "voo_ok s'"
proof -
  let ?mid = "messageId (emVoo s ! k)"
  let ?upd = "\<lambda>g m. if id_msg m = ?mid then g m else m"
  from res obtain g where
    k: "k < length (emVoo s)" and voo: "emVoo s' = remover k (emVoo s)"
    and log: "mensagens (chat s') = map (?upd g) (mensagens (chat s))"
    and gc: "\<And>m. ChatMessage.carregando (g m) = Some False"
    unfolding resolucao_def by blast
  from v have dv: "distinct (map messageId (emVoo s))" by (simp add: voo_ok_def)
  from v have v2: "\<exists>m \<in> set (mensagens (chat s)). id_msg m = messageId x \<and> pendente m \<and> resultado m = None"
    if "x \<in> set (emVoo s)" for x
    using that by (simp add: voo_ok_def)
  from v have v3: "id_msg m \<in> messageId ` set (emVoo s)"
    if "m \<in> set (mensagens (chat s))" and "pendente m" for m
    using that by (simp add: voo_ok_def)
  have d: "distinct (map messageId (emVoo s'))"
    unfolding voo using dv by (rule distinct_map_remover)
  have c1: "\<exists>m \<in> set (mensagens (chat s')). id_msg m = messageId x \<and> pendente m \<and> resultado m = None"
    if "x \<in> set (emVoo s')" for x
  proof -
    from that have xr: "x \<in> set (remover k (emVoo s))" by (simp only: voo)
    have xin: "x \<in> set (emVoo s)" by (rule subsetD[OF set_remover_subset xr])
    have ne: "messageId x \<noteq> ?mid" by (rule remover_other[of messageId, OF dv k xr])
    from v2[OF xin] obtain m where m: "m \<in> set (mensagens (chat s))"
      and im: "id_msg m = messageId x" and pm: "pendente m" and rm: "resultado m = None"
      by blast
    from im ne have fix_m: "?upd g m = m" by simp
    from m have "?upd g m \<in> ?upd g ` set (mensagens (chat s))" by (rule imageI)
    then have "m \<in> ?upd g ` set (mensagens (chat s))" by (simp only: fix_m)
    then have "m \<in> set (mensagens (chat s'))" by (simp only: log set_map)
    with im pm rm show ?thesis by (intro bexI[of _ m]) simp_all
  qed
  have c2: "id_msg m' \<in> messageId ` set (emVoo s')"
    if "m' \<in> set (mensagens (chat s'))" and pm: "pendente m'" for m'
  proof -
    from that(1) obtain m where m: "m \<in> set (mensagens (chat s))" and e: "m' = ?upd g m"
      unfolding log by auto
    have ne: "id_msg m \<noteq> ?mid"
    proof
      assume "id_msg m = ?mid"
      with e have "m' = g m" by simp
      with gc[of m] pm show False by (simp add: pendente_def)
    qed
    with e have mm: "m' = m" by simp
    with m pm have "id_msg m \<in> messageId ` set (emVoo s)"
      by (intro v3) simp_all
    then obtain x where x: "x \<in> set (emVoo s)" and ix: "messageId x = id_msg m"
      by auto
    from ne ix have nx: "messageId x \<noteq> messageId (emVoo s ! k)" by simp
    have "x \<in> set (remover k (emVoo s))"
      by (rule in_set_remover[of k "emVoo s" x messageId, OF k x nx])
    then have "messageId x \<in> messageId ` set (remover k (emVoo s))" by (rule imageI)
    then show ?thesis unfolding voo by (simp only: ix mm)
  qed
  show ?thesis unfolding voo_ok_def
    by (intro conjI ballI impI d c1 c2)
qed

lemma resolucao_log_ok:
  assumes res: "resolucao k P s s'" and ok: "log_ok s"
  shows "log_ok s'"
proof -
  let ?mid = "messageId (emVoo s ! k)"
  from res obtain g where
    log: "mensagens (chat s') = map (\<lambda>m. if id_msg m = ?mid then g m else m) (mensagens (chat s))"
    and gt: "\<And>m. tipo (g m) = tipo m"
    and gc: "\<And>m. ChatMessage.carregando (g m) = Some False"
    and gr: "\<And>m. \<exists>r. resultado (g m) = Some r \<and> P r"
    unfolding resolucao_def by blast
  have "(pendente m' \<and> resultado m' = None) \<or> (resolvida m' \<and> resultado m' \<noteq> None)"
    if "m' \<in> set (mensagens (chat s'))" and ai: "tipo m' = Ai" for m'
  proof -
    from that(1) obtain m where m: "m \<in> set (mensagens (chat s))"
      and e: "m' = (if id_msg m = ?mid then g m else m)"
      unfolding log by auto
    show ?thesis
    proof (cases "id_msg m = ?mid")
      case True
      with e have "m' = g m" by simp
      with gc[of m] gr[of m] ai show ?thesis by (auto simp: resolvida_def)
    next
      case False
      with e have "m' = m" by simp
      with ok m ai show ?thesis unfolding log_ok_def by auto
    qed
  qed
  then show ?thesis unfolding log_ok_def by blast
qed

lemma resolucao_confiancas_ok:
  assumes res: "resolucao k confianca_valida s s'" and ok: "confiancas_ok s"
  shows "confiancas_ok s'"
proof -
  let ?mid = "messageId (emVoo s ! k)"
  from res obtain g where
    log: "mensagens (chat s') = map (\<lambda>m. if id_msg m = ?mid then g m else m) (mensagens (chat s))"
    and gr: "\<And>m. \<exists>r. resultado (g m) = Some r \<and> confianca_valida r"
    unfolding resolucao_def by blast
  have "confianca_valida r"
    if "m' \<in> set (mensagens (chat s'))" and r: "resultado m' = Some r" for m' r
  proof -
    from that(1) obtain m where m: "m \<in> set (mensagens (chat s))"
      and e: "m' = (if id_msg m = ?mid then g m else m)"
      unfolding log by auto
    show ?thesis
    proof (cases "id_msg m = ?mid")
      case True
      with e have "m' = g m" by simp
      with gr[of m] r show ?thesis by auto
    next
      case False
      with e have "m' = m" by simp
      with ok m r show ?thesis unfolding confiancas_ok_def by blast
    qed
  qed
  then show ?thesis unfolding confiancas_ok_def by blast
qed

lemma neutro_ids_ok: "neutro s s' \<Longrightarrow> ids_ok s \<Longrightarrow> ids_ok s'"
  by (simp add: neutro_def ids_ok_def)

lemma neutro_voo_ok: "neutro s s' \<Longrightarrow> voo_ok s \<Longrightarrow> voo_ok s'"
  by (simp add: neutro_def voo_ok_def)

lemma neutro_log_ok: "neutro s s' \<Longrightarrow> log_ok s \<Longrightarrow> log_ok s'"
  by (simp add: neutro_def log_ok_def)

lemma neutro_confiancas_ok: "neutro s s' \<Longrightarrow> confiancas_ok s \<Longrightarrow> confiancas_ok s'"
  by (simp add: neutro_def confiancas_ok_def)

lemma neutro_gate_ok: "neutro s s' \<Longrightarrow> gate_ok s \<Longrightarrow> gate_ok s'"
  by (simp add: neutro_def gate_ok_def)

lemma resolucao_gate_ok: "resolucao k P s s' \<Longrightarrow> gate_ok s \<Longrightarrow> gate_ok s'"
proof -
  assume res: "resolucao k P s s'" and g: "gate_ok s"
  from res have k: "k < length (emVoo s)" and voo: "emVoo s' = remover k (emVoo s)"
    unfolding resolucao_def by blast+
  from g k have "length (emVoo s) = 1" unfolding gate_ok_def by simp
  with k have "remover k (emVoo s) = []" by (simp add: remover_def)
  then show ?thesis unfolding gate_ok_def voo by simp
qed

lemma submissao_gate_ok:
  "submissao s s' \<Longrightarrow> \<not> carregando (chat s) \<Longrightarrow> gate_ok s \<Longrightarrow> gate_ok s'"
proof -
  assume sub: "submissao s s'" and nc: "\<not> carregando (chat s)" and g: "gate_ok s"
  from sub obtain sb where voo: "emVoo s' = emVoo s @ [sb]" and c: "carregando (chat s')"
    unfolding submissao_def by blast
  from g nc have "emVoo s = []" unfolding gate_ok_def by blast
  with voo c show ?thesis unfolding gate_ok_def by simp
qed

section \<open>The invariants hold in every reachable state\<close>

lemma inicial_ok: "ids_ok inicial \<and> voo_ok inicial \<and> log_ok inicial \<and> confiancas_ok inicial \<and> gate_ok inicial"
  by (simp add: ids_ok_def voo_ok_def log_ok_def confiancas_ok_def gate_ok_def inicial_def novoComponente_def)

lemma passo_inv:
  assumes st: "passo e s = Some s'" and inv: "ids_ok s \<and> voo_ok s \<and> log_ok s"
  shows "ids_ok s' \<and> voo_ok s' \<and> log_ok s'"
proof -
  from st have "submissao s s' \<or> (\<exists>k. resolucao k (\<lambda>r. True) s s') \<or> neutro s s'"
    by (rule passo_shape) simp_all
  then consider (sub) "submissao s s'" | (res) k where "resolucao k (\<lambda>r. True) s s'" | (neu) "neutro s s'"
    by blast
  then show ?thesis
  proof cases
    case sub
    with inv show ?thesis
      by (simp add: submissao_ids_ok submissao_voo_ok submissao_log_ok)
  next
    case res
    with inv show ?thesis
      using resolucao_ids_ok[OF res] resolucao_voo_ok[OF res] resolucao_log_ok[OF res] by simp
  next
    case neu
    with inv show ?thesis
      by (simp add: neutro_ids_ok neutro_voo_ok neutro_log_ok)
  qed
qed

lemma executar_inv:
  "executar evs s = Some s' \<Longrightarrow> ids_ok s \<and> voo_ok s \<and> log_ok s \<Longrightarrow> ids_ok s' \<and> voo_ok s' \<and> log_ok s'"
proof (induction evs arbitrary: s)
  case Nil
  then show ?case by simp
next
  case (Cons e evs)
  from Cons.prems(1) obtain s1 where p: "passo e s = Some s1" and r: "executar evs s1 = Some s'"
    by (auto split: option.splits)
  from p Cons.prems(2) have "ids_ok s1 \<and> voo_ok s1 \<and> log_ok s1" by (rule passo_inv)
  with r show ?case by (rule Cons.IH)
qed

lemma alcancavel_inv:
  "executar evs inicial = Some s \<Longrightarrow> ids_ok s \<and> voo_ok s \<and> log_ok s"
  using executar_inv[of evs inicial s] inicial_ok by simp

lemma passo_confiancas:
  assumes st: "passo e s = Some s'" and v: "resposta_valida e" and inv: "confiancas_ok s"
  shows "confiancas_ok s'"
proof -
  from st have "submissao s s' \<or> (\<exists>k. resolucao k confianca_valida s s') \<or> neutro s s'"
  proof (rule passo_shape)
    fix k res assume "e = EvResposta k (Next res)"
    with v show "confianca_valida res" by simp
  next
    fix err
    show "confianca_valida \<lparr>categoria = Improdutivo, confianca = 0,
            resposta_sugerida = prefixoErro @ mensagemErro err\<rparr>"
      by (simp add: confianca_valida_def)
  qed
  with inv show ?thesis
    using submissao_confiancas_ok resolucao_confiancas_ok neutro_confiancas_ok by blast
qed

lemma executar_confiancas:
  "executar evs s = Some s' \<Longrightarrow> list_all resposta_valida evs \<Longrightarrow> confiancas_ok s \<Longrightarrow> confiancas_ok s'"
proof (induction evs arbitrary: s)
  case Nil
  then show ?case by simp
next
  case (Cons e evs)
  from Cons.prems(1) obtain s1 where p: "passo e s = Some s1" and r: "executar evs s1 = Some s'"
    by (auto split: option.splits)
  from Cons.prems(2) have ve: "resposta_valida e" and vs: "list_all resposta_valida evs" by simp_all
  from p ve Cons.prems(3) have "confiancas_ok s1" by (rule passo_confiancas)
  with r vs show ?case by (intro Cons.IH)
qed

lemma enviar_ocupado: "enviar True p inp = (inp, None)"
  by (simp add: enviar_def podeEnviar_def)

lemma passo_gate_shape:
  assumes g: "pela_entrada e" and st: "passo e s = Some s'"
  shows "(submissao s s' \<and> \<not> carregando (chat s)) \<or> (\<exists>k. resolucao k (\<lambda>r. True) s s') \<or> neutro s s'"
proof (cases e)
  case (EvEnviar inp clk)
  show ?thesis
  proof (cases "carregando (chat s)")
    case True
    with st EvEnviar have "s' = s" by (simp add: enviar_ocupado)
    then have "neutro s s'" by (simp add: neutro_def)
    then show ?thesis by blast
  next
    case False
    from st EvEnviar have "s' = s \<or> (\<exists>em. s' = emitir em clk s)"
      by (auto split: option.splits)
    then have "submissao s s' \<or> neutro s s'"
      using emitir_shape[of s _ clk] by (auto simp: neutro_def)
    with False show ?thesis by blast
  qed
next
  case (EvTexto c p clk)
  with g show ?thesis by simp
next
  case (EvArquivo f p clk)
  with g show ?thesis by simp
next
  case (EvResposta k r)
  from st have "submissao s s' \<or> (\<exists>k. resolucao k (\<lambda>r. True) s s') \<or> neutro s s'"
    by (rule passo_shape) simp_all
  moreover have "\<not> submissao s s'"
  proof
    assume "submissao s s'"
    then have "length (mensagens (chat s')) = length (mensagens (chat s)) + 2"
      unfolding submissao_def by auto
    moreover from st EvResposta have "length (mensagens (chat s')) = length (mensagens (chat s))"
      by (auto simp: resolver_def handleSucesso_def handleErro_def split: if_splits Resposta.splits)
    ultimately show False by simp
  qed
  ultimately show ?thesis by blast
next
  case (EvProviderChange p)
  with st have "neutro s s'" by (auto simp: neutro_def onProviderChange_def)
  then show ?thesis by blast
next
  case (EvProviders r)
  with st have "neutro s s'"
    by (auto simp: neutro_def carregarProviders_next_def carregarProviders_error_def
        split: if_splits option.splits)
  then show ?thesis by blast
next
  case EvAfterViewChecked
  with st have "neutro s s'"
    by (cases "shouldScrollToBottom (chat s)") (auto simp: neutro_def ngAfterViewChecked_def)
  then show ?thesis by blast
qed

lemma passo_gate:
  assumes g: "pela_entrada e" and st: "passo e s = Some s'" and inv: "gate_ok s"
  shows "gate_ok s'"
  using passo_gate_shape[OF g st] inv
    submissao_gate_ok[of s s'] resolucao_gate_ok[of _ _ s s'] neutro_gate_ok[of s s']
  by blast

lemma executar_gate:
  "executar evs s = Some s' \<Longrightarrow> list_all pela_entrada evs \<Longrightarrow> gate_ok s \<Longrightarrow> gate_ok s'"
proof (induction evs arbitrary: s)
  case Nil
  then show ?case by simp
next
  case (Cons e evs)
  from Cons.prems(1) obtain s1 where p: "passo e s = Some s1" and r: "executar evs s1 = Some s'"
    by (auto split: option.splits)
  from Cons.prems(2) have ve: "pela_entrada e" and vs: "list_all pela_entrada evs" by simp_all
  from ve p Cons.prems(3) have "gate_ok s1" by (rule passo_gate)
  with r vs show ?case by (intro Cons.IH)
qed

lemma map_if_distinct:
  assumes d: "distinct (map f xs)" and j: "j < length xs" and a: "f (xs ! j) = a"
  shows "map (\<lambda>x. if f x = a then g x else x) xs = xs[j := g (xs ! j)]"
proof (rule nth_equalityI)
  show "length (map (\<lambda>x. if f x = a then g x else x) xs) = length (xs[j := g (xs ! j)])" by simp
next
  fix i assume "i < length (map (\<lambda>x. if f x = a then g x else x) xs)"
  then have i: "i < length xs" by simp
  show "map (\<lambda>x. if f x = a then g x else x) xs ! i = xs[j := g (xs ! j)] ! i"
  proof (cases "i = j")
    case True
    with j a show ?thesis by simp
  next
    case False
    have "(map f xs ! i = map f xs ! j) = (i = j)"
      using d i j by (intro nth_eq_iff_index_eq) simp_all
    with i j False have "f (xs ! i) \<noteq> f (xs ! j)" by simp
    with a have "f (xs ! i) \<noteq> a" by simp
    with i False show ?thesis by simp
  qed
qed

section \<open>The two result handlers\<close>

lemma formatId_eq_iff: "(formatId c t = formatId c' t') = (c = c' \<and> t = t')"
  using formatId_inj by blast

lemma mensagens_handleSucesso:
  "mensagens (handleSucesso res mid prov s) =
     map (\<lambda>msg. if id_msg msg = mid
                 then msg\<lparr>ChatMessage.carregando := Some False, resultado := Some res,
                          provider := Some prov\<rparr>
                 else msg) (mensagens s)"
  by (simp add: handleSucesso_def)

lemma mensagens_handleErro:
  "mensagens (handleErro err mid s) =
     map (\<lambda>msg. if id_msg msg = mid
                 then msg\<lparr>ChatMessage.carregando := Some False,
                          resultado := Some \<lparr>categoria = Improdutivo, confianca = 0,
                                             resposta_sugerida = prefixoErro @ mensagemErro err\<rparr>\<rparr>
                 else msg) (mensagens s)"
  by (simp add: handleErro_def)

lemma map_if_absent: "a \<notin> f ` set xs \<Longrightarrow> map (\<lambda>x. if f x = a then g x else x) xs = xs"
  by (induction xs) auto

lemma detail_contido:
  "error err = Some b \<Longrightarrow> detail b = Some d \<Longrightarrow> \<exists>pre suf. prefixoErro @ mensagemErro err = pre @ d @ suf"
proof (cases "d = []")
  case True
  then have "prefixoErro @ mensagemErro err = (prefixoErro @ mensagemErro err) @ d @ []" by simp
  then show ?thesis by blast
next
  case False
  assume "error err = Some b" "detail b = Some d"
  with False have "mensagemErro err = d" by (simp add: mensagemErro_def)
  then have "prefixoErro @ mensagemErro err = prefixoErro @ d @ []" by simp
  then show ?thesis by blast
qed

section \<open>The example session, evaluated\<close>

lemma mensagens_sessao_pendente:
  "mensagens (chat sessao_pendente) =
     [\<lparr>id_msg = formatId 1 1700000000000, tipo = User,
        conteudo = Some ''Preciso de ajuda com pedido #123'', arquivo = None, resultado = None,
        provider = None, timestamp = 1700000000000, carregando = None, emailOriginal = None\<rparr>,
      \<lparr>id_msg = formatId 2 1700000000001, tipo = Ai, conteudo = None, arquivo = None,
        resultado = None, provider = Some Openai, timestamp = 1700000000001,
        carregando = Some True, emailOriginal = Some ''Preciso de ajuda com pedido #123''\<rparr>]"
  by (simp add: sessao_pendente_def emitir_def onEnviarTexto_def gerarId_def inicial_def
      novoComponente_def relogio_exemplo_def Let_def formatId_eq_iff)

lemma emVoo_sessao_pendente:
  "emVoo sessao_pendente =
     [\<lparr>requisicao = ClassificarPorTexto ''Preciso de ajuda com pedido #123'' Openai,
       messageId = formatId 2 1700000000001, provider_cb = Openai\<rparr>]"
  by (simp add: sessao_pendente_def emitir_def onEnviarTexto_def gerarId_def inicial_def
      novoComponente_def relogio_exemplo_def Let_def formatId_eq_iff)

lemma executar_sessao_pendente:
  "executar [EvTexto ''Preciso de ajuda com pedido #123'' Openai relogio_exemplo] inicial
     = Some sessao_pendente"
  by (simp add: sessao_pendente_def)

section \<open>A resolution rewrites one entry\<close>

lemma resolver_mensagens:
  "\<exists>g. mensagens (resolver r sub c)
           = map (\<lambda>m. if id_msg m = messageId sub then g m else m) (mensagens c)
       \<and> (\<forall>m. id_msg (g m) = id_msg m \<and> tipo (g m) = tipo m
              \<and> ChatMessage.carregando (g m) = Some False \<and> resultado (g m) \<noteq> None)"
proof (cases r)
  case (Next res)
  show ?thesis
    by (rule exI[of _ "\<lambda>msg. msg\<lparr>ChatMessage.carregando := Some False, resultado := Some res,
                               provider := Some (provider_cb sub)\<rparr>"])
       (simp add: Next resolver_def mensagens_handleSucesso)
next
  case (Falha err)
  show ?thesis
    by (rule exI[of _ "\<lambda>msg. msg\<lparr>ChatMessage.carregando := Some False,
                               resultado := Some \<lparr>categoria = Improdutivo, confianca = 0,
                                                  resposta_sugerida = prefixoErro @ mensagemErro err\<rparr>\<rparr>"])
       (simp add: Falha resolver_def mensagens_handleErro)
qed

lemma passo_texto:
  "\<exists>s' u a sub. passo (EvTexto c p clk) s = Some s'
      \<and> mensagens (chat s') = mensagens (chat s) @ [u, a]
      \<and> tipo u = User \<and> conteudo u = Some c \<and> arquivo u = None
      \<and> id_msg u = formatId (messageIdCounter (chat s) + 1) (now_user clk)
      \<and> pendente a \<and> resultado a = None
      \<and> id_msg a = formatId (messageIdCounter (chat s) + 2) (now_ai clk)
      \<and> emVoo s' = emVoo s @ [sub] \<and> messageId sub = id_msg a"
  by (simp add: emitir_def onEnviarTexto_def gerarId_def Let_def pendente_def)

lemma passo_arquivo:
  "\<exists>s' u a sub. passo (EvArquivo f p clk) s = Some s'
      \<and> mensagens (chat s') = mensagens (chat s) @ [u, a]
      \<and> tipo u = User \<and> conteudo u = None
      \<and> arquivo u = Some \<lparr>nome = name f, tamanho = size_file f\<rparr>
      \<and> id_msg u = formatId (messageIdCounter (chat s) + 1) (now_user clk)
      \<and> pendente a \<and> resultado a = None
      \<and> id_msg a = formatId (messageIdCounter (chat s) + 2) (now_ai clk)
      \<and> emVoo s' = emVoo s @ [sub] \<and> messageId sub = id_msg a"
  by (simp add: emitir_def onEnviarArquivo_def gerarId_def Let_def pendente_def)

lemma resolucao_in_place:
  assumes ids: "ids_ok s" and voo: "voo_ok s" and k: "k < length (emVoo s)"
  shows "\<exists>s' j m'. passo (EvResposta k r) s = Some s'
           \<and> j < length (mensagens (chat s))
           \<and> id_msg (mensagens (chat s) ! j) = messageId (emVoo s ! k)
           \<and> pendente (mensagens (chat s) ! j)
           \<and> mensagens (chat s') = (mensagens (chat s))[j := m']
           \<and> resolvida m' \<and> resultado m' \<noteq> None
           \<and> id_msg m' = messageId (emVoo s ! k)"
proof -
  let ?sub = "emVoo s ! k"
  let ?log = "mensagens (chat s)"
  let ?s' = "s\<lparr>chat := resolver r ?sub (chat s), emVoo := remover k (emVoo s)\<rparr>"
  from k have "?sub \<in> set (emVoo s)" by simp
  with voo obtain m where m: "m \<in> set ?log" and im: "id_msg m = messageId ?sub" and pm: "pendente m"
    unfolding voo_ok_def by blast
  from m obtain j where j: "j < length ?log" and mj: "?log ! j = m"
    by (auto simp: in_set_conv_nth)
  from ids have d: "distinct (map id_msg ?log)" by (simp add: ids_ok_def)
  obtain g where g: "mensagens (resolver r ?sub (chat s))
                      = map (\<lambda>m. if id_msg m = messageId ?sub then g m else m) ?log"
    and gi: "\<And>m. id_msg (g m) = id_msg m" and gt: "\<And>m. tipo (g m) = tipo m"
    and gc: "\<And>m. ChatMessage.carregando (g m) = Some False"
    and gr: "\<And>m. resultado (g m) \<noteq> None"
    using resolver_mensagens[of r ?sub "chat s"] by blast
  have ij: "id_msg (?log ! j) = messageId ?sub" by (simp only: mj im)
  have u: "mensagens (resolver r ?sub (chat s)) = ?log[j := g (?log ! j)]"
    unfolding g by (rule map_if_distinct[of id_msg ?log j "messageId ?sub" g, OF d j ij])
  have p: "passo (EvResposta k r) s = Some ?s'" using k by simp
  have rv: "resolvida (g (?log ! j))"
    using pm by (simp add: resolvida_def pendente_def gt gc mj)
  have "passo (EvResposta k r) s = Some ?s'
           \<and> j < length ?log
           \<and> id_msg (?log ! j) = messageId ?sub
           \<and> pendente (?log ! j)
           \<and> mensagens (chat ?s') = ?log[j := g (?log ! j)]
           \<and> resolvida (g (?log ! j)) \<and> resultado (g (?log ! j)) \<noteq> None
           \<and> id_msg (g (?log ! j)) = messageId ?sub"
    using p j ij pm u rv gr gi by (simp add: mj)
  then show ?thesis by blast
qed

section \<open>The example runs, evaluated\<close>

lemmas run_eval = emitir_def onEnviarTexto_def onEnviarArquivo_def gerarId_def Let_def
  resolver_def handleSucesso_def handleErro_def remover_def inicial_def novoComponente_def
  formatId_eq_iff pendente_def resolvida_def relogio_exemplo_def relogio_seguinte_def

lemma executar_fora_da_faixa:
  "executar eventos_fora_da_faixa inicial \<noteq> None
   \<and> resolvida (mensagens (chat (the (executar eventos_fora_da_faixa inicial))) ! 1)
   \<and> map_option confianca (resultado (mensagens (chat (the (executar eventos_fora_da_faixa inicial))) ! 1))
       = Some (3 / 2)"
  by (simp add: eventos_fora_da_faixa_def resultado_fora_da_faixa_def run_eval)

lemma executar_entrada_exemplo:
  "executar [EvEnviar entrada_exemplo relogio_exemplo] inicial = Some sessao_pendente"
  by (simp add: entrada_exemplo_def novoChatInput_def enviar_def podeEnviar_def trim_def espacos_def
      sessao_pendente_def inicial_def novoComponente_def)

text \<open>
  \<open>trim\<close> at a text with a space, a no-break space and a line feed before it and a
  line separator, a tab and U+FEFF after it; inner white space stays.
\<close>

lemma trim_exemplo:
  "trim ([CHR 0x20, CHR 0xC2, CHR 0xA0, CHR 0x0A] @ ''oi  la''
         @ [CHR 0xE2, CHR 0x80, CHR 0xA8, CHR 0x09, CHR 0xEF, CHR 0xBB, CHR 0xBF]) = ''oi  la''
   \<and> trim [CHR 0x20, CHR 0xE3, CHR 0x80, CHR 0x80] = []
   \<and> trim [CHR 0xC3, CHR 0xA0] = [CHR 0xC3, CHR 0xA0]"
  by (simp add: trim_def espacos_def)

section \<open>Text and file in the chat input\<close>

lemma onArquivoSelecionado_exclusivo: "exclusivo s \<Longrightarrow> exclusivo (onArquivoSelecionado files s)"
proof (cases files)
  case None
  assume "exclusivo s"
  with None show ?thesis by (simp add: onArquivoSelecionado_def)
next
  case (Some fl)
  assume e: "exclusivo s"
  show ?thesis
  proof (cases fl)
    case Nil
    with Some e show ?thesis by (simp add: onArquivoSelecionado_def)
  next
    case (Cons f fs)
    with Some e show ?thesis
      by (simp add: onArquivoSelecionado_eq exclusivo_def)
  qed
qed

lemma enviar_cases:
  "snd (enviar c p s) = None \<and> fst (enviar c p s) = s
   \<or> (\<exists>f. arquivoSelecionado s = Some f \<and> snd (enviar c p s) = Some (EnviarArquivo f p)
          \<and> fst (enviar c p s) = s\<lparr>arquivoSelecionado := None\<rparr>)
   \<or> (arquivoSelecionado s = None \<and> snd (enviar c p s) = Some (EnviarTexto (trim (conteudoEmail s)) p)
          \<and> fst (enviar c p s) = s\<lparr>conteudoEmail := []\<rparr>)"
  by (cases "arquivoSelecionado s") (simp_all add: enviar_def)

lemma passo_entrada_exclusivo: "exclusivo s \<Longrightarrow> exclusivo (passo_entrada e s)"
proof (cases e)
  case (EntArquivo files)
  assume "exclusivo s"
  then show ?thesis unfolding EntArquivo by (simp add: onArquivoSelecionado_exclusivo)
next
  case (EntEnviar c p)
  assume "exclusivo s"
  then show ?thesis unfolding EntEnviar using enviar_cases[of c p s]
    by (auto simp: exclusivo_def)
qed (simp_all add: exclusivo_def digitarTexto_def limparArquivo_def toggleMenuProvider_def
       fecharMenu_def selecionarProvider_def)

lemma executar_entrada_exclusivo: "exclusivo s \<Longrightarrow> exclusivo (executar_entrada evs s)"
  by (induction evs arbitrary: s) (simp_all add: passo_entrada_exclusivo)

section \<open>File validation\<close>

text \<open>
  Claim C5. For every selected file, \<open>onArquivoSelecionado\<close> rejects the file with the
  format error when its extension, the substring after the last dot put in lower case, is
  not one of txt, pdf, eml, msg, mbox; rejects it with the size error when its size
  exceeds 5242880 bytes; and otherwise stages it. A rejection only sets \<open>erro\<close>. The
  file \<open>virus.exe\<close> and a file of 6 MiB with an allowed extension are rejected; a
  \<open>.pdf\<close> of 4 MiB and a \<open>.eml\<close> of 100 bytes are accepted.
\<close>

theorem file_validation:
  "onArquivoSelecionado (Some (f # fs)) s =
     (if toLowerCase (apos_ultimo_ponto (name f)) \<notin> set formatosSuportados
      then s\<lparr>erro := Some erroFormato\<rparr>
      else if size_file f > 5242880 then s\<lparr>erro := Some erroTamanho\<rparr>
      else s\<lparr>arquivoSelecionado := Some f, conteudoEmail := [], erro := None\<rparr>)
   \<and> onArquivoSelecionado (Some [\<lparr>name = ''virus.exe'', size_file = 1024\<rparr>]) s
       = s\<lparr>erro := Some erroFormato\<rparr>
   \<and> onArquivoSelecionado (Some [\<lparr>name = ''caixa.mbox'', size_file = 6 * 1024 * 1024\<rparr>]) s
       = s\<lparr>erro := Some erroTamanho\<rparr>
   \<and> onArquivoSelecionado (Some [\<lparr>name = ''contrato.pdf'', size_file = 4 * 1024 * 1024\<rparr>]) s
       = s\<lparr>arquivoSelecionado := Some \<lparr>name = ''contrato.pdf'', size_file = 4 * 1024 * 1024\<rparr>,
           conteudoEmail := [], erro := None\<rparr>
   \<and> onArquivoSelecionado (Some [\<lparr>name = ''pedido.eml'', size_file = 100\<rparr>]) s
       = s\<lparr>arquivoSelecionado := Some \<lparr>name = ''pedido.eml'', size_file = 100\<rparr>,
           conteudoEmail := [], erro := None\<rparr>"
proof (intro conjI)
  show "onArquivoSelecionado (Some (f # fs)) s =
     (if toLowerCase (apos_ultimo_ponto (name f)) \<notin> set formatosSuportados
      then s\<lparr>erro := Some erroFormato\<rparr>
      else if size_file f > 5242880 then s\<lparr>erro := Some erroTamanho\<rparr>
      else s\<lparr>arquivoSelecionado := Some f, conteudoEmail := [], erro := None\<rparr>)"
    by (rule onArquivoSelecionado_eq)
qed (simp_all add: onArquivoSelecionado_eq apos_ultimo_ponto_def toLowerCase_def char_eval
       formatosSuportados_def)

text \<open>
  The same at a concrete file with two dots and capitals in its extension, exactly at the
  size limit: it is accepted, and what the specification calls the extension is \<open>PDF\<close>.
\<close>

theorem file_validation_witness:
  "apos_ultimo_ponto ''Relatorio.final.PDF'' = ''PDF''
   \<and> onArquivoSelecionado (Some [\<lparr>name = ''Relatorio.final.PDF'', size_file = 5242880\<rparr>]) novoChatInput
       = novoChatInput\<lparr>arquivoSelecionado := Some \<lparr>name = ''Relatorio.final.PDF'', size_file = 5242880\<rparr>,
           conteudoEmail := [], erro := None\<rparr>"
  using file_validation [of "\<lparr>name = ''Relatorio.final.PDF'', size_file = 5242880\<rparr>" "[]" novoChatInput]
  by (simp add: apos_ultimo_ponto_def toLowerCase_def char_eval formatosSuportados_def)

text \<open>
  Claim C9, as the code has it. For a file whose name has no dot the whole name is the
  extension: the file is accepted, within the size limit, exactly when its name put in
  lower case is one of txt, pdf, eml, msg, mbox, so in any mix of capitals and small
  letters; every other dotless name is rejected with the format error.
\<close>

theorem dotless_name_is_extension:
  "CHR ''.'' \<notin> set (name f) \<Longrightarrow>
   onArquivoSelecionado (Some (f # fs)) s =
     (if toLowerCase (name f) \<in> set formatosSuportados
      then (if size_file f > 5242880 then s\<lparr>erro := Some erroTamanho\<rparr>
            else s\<lparr>arquivoSelecionado := Some f, conteudoEmail := [], erro := None\<rparr>)
      else s\<lparr>erro := Some erroFormato\<rparr>)"
  by (simp add: onArquivoSelecionado_eq apos_ultimo_ponto_no_dot)

theorem dotless_name_is_extension_witness:
  "CHR ''.'' \<notin> set ''mbox''
   \<and> onArquivoSelecionado (Some [\<lparr>name = ''mbox'', size_file = 7\<rparr>]) novoChatInput
       = novoChatInput\<lparr>arquivoSelecionado := Some \<lparr>name = ''mbox'', size_file = 7\<rparr>,
           conteudoEmail := [], erro := None\<rparr>
   \<and> CHR ''.'' \<notin> set ''LEIAME''
   \<and> onArquivoSelecionado (Some [\<lparr>name = ''LEIAME'', size_file = 7\<rparr>]) novoChatInput
       = novoChatInput\<lparr>erro := Some erroFormato\<rparr>"
  using dotless_name_is_extension [of "\<lparr>name = ''mbox'', size_file = 7\<rparr>" "[]" novoChatInput]
    dotless_name_is_extension [of "\<lparr>name = ''LEIAME'', size_file = 7\<rparr>" "[]" novoChatInput]
  by (simp add: toLowerCase_def char_eval formatosSuportados_def)

text \<open>
  The claim as written fails at the dotless name \<open>TXT\<close>: it is none of the five names,
  and the file is accepted.
\<close>

theorem dotless_exact_name_counterexample:
  "CHR ''.'' \<notin> set ''TXT''
   \<and> ''TXT'' \<notin> set [''txt'', ''pdf'', ''eml'', ''msg'', ''mbox'']
   \<and> arquivoSelecionado (onArquivoSelecionado (Some [\<lparr>name = ''TXT'', size_file = 10\<rparr>]) novoChatInput)
       = Some \<lparr>name = ''TXT'', size_file = 10\<rparr>
   \<and> erro (onArquivoSelecionado (Some [\<lparr>name = ''TXT'', size_file = 10\<rparr>]) novoChatInput) = None"
  by (simp add: onArquivoSelecionado_def pop_def toLowerCase_def char_eval formatosSuportados_def
      novoChatInput_def)

section \<open>Resolution of a call\<close>

text \<open>
  Claim C2. A result callback, success or error, whose message id is the id of no message
  in the log leaves the log as it is: no entry is changed, none is added. The handlers
  are total functions, so the callback ends normally, and the step of the session that
  delivers the response is defined. (The handlers clear the busy flag all the same; the
  claim is about the log.)
\<close>

theorem stale_resolution_is_noop:
  assumes "mid \<notin> id_msg ` set (mensagens c)"
  shows "mensagens (handleSucesso res mid prov c) = mensagens c
       \<and> mensagens (handleErro err mid c) = mensagens c
       \<and> (k < length (emVoo s) \<and> chat s = c \<and> messageId (emVoo s ! k) = mid \<longrightarrow>
            (\<exists>s'. passo (EvResposta k r) s = Some s' \<and> mensagens (chat s') = mensagens (chat s)))"
proof (intro conjI impI)
  show "mensagens (handleSucesso res mid prov c) = mensagens c"
    unfolding mensagens_handleSucesso using assms by (rule map_if_absent)
  show e: "mensagens (handleErro err mid c) = mensagens c"
    unfolding mensagens_handleErro using assms by (rule map_if_absent)
  assume h: "k < length (emVoo s) \<and> chat s = c \<and> messageId (emVoo s ! k) = mid"
  have "mensagens (resolver r (emVoo s ! k) c) = mensagens c"
    using assms h
    by (cases r) (simp_all add: resolver_def mensagens_handleSucesso mensagens_handleErro map_if_absent)
  with h show "\<exists>s'. passo (EvResposta k r) s = Some s' \<and> mensagens (chat s') = mensagens (chat s)"
    by simp
qed

text \<open>
  At the session \<open>sessao_orfa\<close>: the call in flight names an id made from counter 7,
  the log holds the ids made from counters 1 and 2.
\<close>

theorem stale_resolution_is_noop_witness:
  "formatId 7 1600000000000 \<notin> id_msg ` set (mensagens (chat sessao_orfa))
   \<and> length (mensagens (chat sessao_orfa)) = 2
   \<and> messageId (emVoo sessao_orfa ! 0) = formatId 7 1600000000000
   \<and> mensagens (handleSucesso resultado_produtivo (formatId 7 1600000000000) Gemini (chat sessao_orfa))
       = mensagens (chat sessao_orfa)
   \<and> mensagens (handleErro erro_rate_limited (formatId 7 1600000000000) (chat sessao_orfa))
       = mensagens (chat sessao_orfa)
   \<and> (\<exists>s'. passo (EvResposta 0 (Falha erro_rate_limited)) sessao_orfa = Some s'
          \<and> mensagens (chat s') = mensagens (chat sessao_orfa))"
proof -
  have h: "formatId 7 1600000000000 \<notin> id_msg ` set (mensagens (chat sessao_orfa))"
    by (simp add: sessao_orfa_def mensagens_sessao_pendente formatId_eq_iff)
  have l: "length (mensagens (chat sessao_orfa)) = 2"
    by (simp add: sessao_orfa_def mensagens_sessao_pendente)
  have k: "0 < length (emVoo sessao_orfa) \<and> chat sessao_orfa = chat sessao_orfa
           \<and> messageId (emVoo sessao_orfa ! 0) = formatId 7 1600000000000"
    by (simp add: sessao_orfa_def)
  from stale_resolution_is_noop [OF h, of resultado_produtivo Gemini erro_rate_limited 0 sessao_orfa
      "Falha erro_rate_limited"] h l k
  show ?thesis by blast
qed

text \<open>
  Claim C3. When a classify call fails, the step that delivers the failure is defined
  (the error ends in \<open>handleErro\<close>, it is not rethrown), the log keeps its length, and
  the message with the id of the call becomes a copy of itself with \<open>carregando\<close> false
  and a synthetic result: confidence 0 and a reply made of the error prefix (the cross
  mark U+274C, bytes E2 9D 8C, then \<open> Erro: \<close>) and the error text. The error text is
  the detail of the error body when there is one and it is not empty, else the default
  text. When the error body has a detail, the detail occurs in the reply.
\<close>

theorem failed_call_resolves_entry:
  assumes k: "k < length (emVoo s)"
    and j: "j < length (mensagens (chat s))"
    and i: "id_msg (mensagens (chat s) ! j) = messageId (emVoo s ! k)"
  shows "\<exists>s' r. passo (EvResposta k (Falha err)) s = Some s'
           \<and> length (mensagens (chat s')) = length (mensagens (chat s))
           \<and> mensagens (chat s') ! j
               = (mensagens (chat s) ! j)\<lparr>ChatMessage.carregando := Some False, resultado := Some r\<rparr>
           \<and> confianca r = 0
           \<and> resposta_sugerida r = prefixoErro @ mensagemErro err
           \<and> (\<forall>b d. error err = Some b \<and> detail b = Some d \<longrightarrow>
                 (\<exists>pre suf. resposta_sugerida r = pre @ d @ suf))
           \<and> resposta_sugerida r = [CHR 0xE2, CHR 0x9D, CHR 0x8C] @ '' Erro: '' @ mensagemErro err
           \<and> (\<forall>b d. error err = Some b \<and> detail b = Some d \<and> d \<noteq> [] \<longrightarrow>
                 resposta_sugerida r = [CHR 0xE2, CHR 0x9D, CHR 0x8C] @ '' Erro: '' @ d)
           \<and> (error err = None \<or> (\<exists>b. error err = Some b \<and> (detail b = None \<or> detail b = Some []))
                 \<longrightarrow> resposta_sugerida r
                       = [CHR 0xE2, CHR 0x9D, CHR 0x8C]
                         @ '' Erro: Erro ao classificar email. Tente novamente.'')"
proof -
  let ?r = "\<lparr>categoria = Improdutivo, confianca = 0,
             resposta_sugerida = prefixoErro @ mensagemErro err\<rparr>"
  let ?s' = "s\<lparr>chat := resolver (Falha err) (emVoo s ! k) (chat s), emVoo := remover k (emVoo s)\<rparr>"
  have p: "passo (EvResposta k (Falha err)) s = Some ?s'" using k by simp
  have l: "length (mensagens (chat ?s')) = length (mensagens (chat s))"
    by (simp add: resolver_def mensagens_handleErro)
  have n: "mensagens (chat ?s') ! j
             = (mensagens (chat s) ! j)\<lparr>ChatMessage.carregando := Some False, resultado := Some ?r\<rparr>"
    using j i by (simp add: resolver_def mensagens_handleErro)
  have c: "\<forall>b d. error err = Some b \<and> detail b = Some d \<longrightarrow>
             (\<exists>pre suf. resposta_sugerida ?r = pre @ d @ suf)"
    using detail_contido[of err] by simp
  have q: "resposta_sugerida ?r = [CHR 0xE2, CHR 0x9D, CHR 0x8C] @ '' Erro: '' @ mensagemErro err"
    by (simp add: prefixoErro_def)
  have d1: "\<forall>b d. error err = Some b \<and> detail b = Some d \<and> d \<noteq> [] \<longrightarrow>
              resposta_sugerida ?r = [CHR 0xE2, CHR 0x9D, CHR 0x8C] @ '' Erro: '' @ d"
    by (simp add: prefixoErro_def mensagemErro_def)
  have d2: "error err = None \<or> (\<exists>b. error err = Some b \<and> (detail b = None \<or> detail b = Some []))
              \<longrightarrow> resposta_sugerida ?r
                    = [CHR 0xE2, CHR 0x9D, CHR 0x8C]
                      @ '' Erro: Erro ao classificar email. Tente novamente.''"
    by (auto simp: prefixoErro_def mensagemErro_def)
  have "passo (EvResposta k (Falha err)) s = Some ?s'
           \<and> length (mensagens (chat ?s')) = length (mensagens (chat s))
           \<and> mensagens (chat ?s') ! j
               = (mensagens (chat s) ! j)\<lparr>ChatMessage.carregando := Some False, resultado := Some ?r\<rparr>
           \<and> confianca ?r = 0
           \<and> resposta_sugerida ?r = prefixoErro @ mensagemErro err
           \<and> (\<forall>b d. error err = Some b \<and> detail b = Some d \<longrightarrow>
                 (\<exists>pre suf. resposta_sugerida ?r = pre @ d @ suf))
           \<and> resposta_sugerida ?r = [CHR 0xE2, CHR 0x9D, CHR 0x8C] @ '' Erro: '' @ mensagemErro err
           \<and> (\<forall>b d. error err = Some b \<and> detail b = Some d \<and> d \<noteq> [] \<longrightarrow>
                 resposta_sugerida ?r = [CHR 0xE2, CHR 0x9D, CHR 0x8C] @ '' Erro: '' @ d)
           \<and> (error err = None \<or> (\<exists>b. error err = Some b \<and> (detail b = None \<or> detail b = Some []))
                 \<longrightarrow> resposta_sugerida ?r
                       = [CHR 0xE2, CHR 0x9D, CHR 0x8C]
                         @ '' Erro: Erro ao classificar email. Tente novamente.'')"
    using p l n c q d1 d2 by (intro conjI) simp_all
  then show ?thesis by (intro exI[of _ ?s'] exI[of _ ?r])
qed

text \<open>
  The scenario of the specification: a failure with detail \<open>rate limited\<close>. The reply is
  the three bytes of the cross mark followed by \<open> Erro: rate limited\<close>. A transport
  failure, with no body, gives the default text behind the same prefix.
\<close>

theorem failed_call_resolves_entry_witness:
  "0 < length (emVoo sessao_pendente)
   \<and> 1 < length (mensagens (chat sessao_pendente))
   \<and> id_msg (mensagens (chat sessao_pendente) ! 1) = messageId (emVoo sessao_pendente ! 0)
   \<and> (\<exists>s' r. passo (EvResposta 0 (Falha erro_rate_limited)) sessao_pendente = Some s'
          \<and> length (mensagens (chat s')) = 2
          \<and> ChatMessage.carregando (mensagens (chat s') ! 1) = Some False
          \<and> resultado (mensagens (chat s') ! 1) = Some r
          \<and> confianca r = 0
          \<and> resposta_sugerida r = prefixoErro @ ''rate limited''
          \<and> (\<exists>pre suf. resposta_sugerida r = pre @ ''rate limited'' @ suf)
          \<and> resposta_sugerida r = [CHR 0xE2, CHR 0x9D, CHR 0x8C] @ '' Erro: rate limited'')
   \<and> (\<exists>s' r. passo (EvResposta 0 (Falha \<lparr>error = None\<rparr>)) sessao_pendente = Some s'
          \<and> resultado (mensagens (chat s') ! 1) = Some r
          \<and> confianca r = 0
          \<and> resposta_sugerida r
              = [CHR 0xE2, CHR 0x9D, CHR 0x8C] @ '' Erro: Erro ao classificar email. Tente novamente.'')"
proof -
  have k: "0 < length (emVoo sessao_pendente)" by (simp add: emVoo_sessao_pendente)
  have j: "1 < length (mensagens (chat sessao_pendente))" by (simp add: mensagens_sessao_pendente)
  have i: "id_msg (mensagens (chat sessao_pendente) ! 1) = messageId (emVoo sessao_pendente ! 0)"
    by (simp add: mensagens_sessao_pendente emVoo_sessao_pendente)
  from failed_call_resolves_entry [OF k j i, of erro_rate_limited]
  obtain s' r where p: "passo (EvResposta 0 (Falha erro_rate_limited)) sessao_pendente = Some s'"
    and l: "length (mensagens (chat s')) = length (mensagens (chat sessao_pendente))"
    and n: "mensagens (chat s') ! 1
             = (mensagens (chat sessao_pendente) ! 1)\<lparr>ChatMessage.carregando := Some False, resultado := Some r\<rparr>"
    and c: "confianca r = 0"
    and t: "resposta_sugerida r = prefixoErro @ mensagemErro erro_rate_limited"
    and d: "\<forall>b d. error erro_rate_limited = Some b \<and> detail b = Some d \<longrightarrow>
              (\<exists>pre suf. resposta_sugerida r = pre @ d @ suf)"
    and x: "\<forall>b d. error erro_rate_limited = Some b \<and> detail b = Some d \<and> d \<noteq> [] \<longrightarrow>
              resposta_sugerida r = [CHR 0xE2, CHR 0x9D, CHR 0x8C] @ '' Erro: '' @ d"
    by blast
  have m: "mensagemErro erro_rate_limited = ''rate limited''"
    by (simp add: mensagemErro_def erro_rate_limited_def)
  have b: "error erro_rate_limited = Some \<lparr>detail = Some ''rate limited''\<rparr>
        \<and> detail \<lparr>detail = Some ''rate limited''\<rparr> = Some ''rate limited''"
    by (simp add: erro_rate_limited_def)
  with d have e: "\<exists>pre suf. resposta_sugerida r = pre @ ''rate limited'' @ suf" by blast
  have "''rate limited'' \<noteq> []" by simp
  with x b have "resposta_sugerida r = [CHR 0xE2, CHR 0x9D, CHR 0x8C] @ '' Erro: '' @ ''rate limited''"
    by blast
  then have y: "resposta_sugerida r = [CHR 0xE2, CHR 0x9D, CHR 0x8C] @ '' Erro: rate limited''"
    by simp
  from l have l2: "length (mensagens (chat s')) = 2" by (simp add: mensagens_sessao_pendente)
  from n have n1: "ChatMessage.carregando (mensagens (chat s') ! 1) = Some False"
    and n2: "resultado (mensagens (chat s') ! 1) = Some r" by simp_all
  from t m have t2: "resposta_sugerida r = prefixoErro @ ''rate limited''" by simp
  from p l2 n1 n2 c t2 e y
  have first: "\<exists>s' r. passo (EvResposta 0 (Falha erro_rate_limited)) sessao_pendente = Some s'
          \<and> length (mensagens (chat s')) = 2
          \<and> ChatMessage.carregando (mensagens (chat s') ! 1) = Some False
          \<and> resultado (mensagens (chat s') ! 1) = Some r
          \<and> confianca r = 0
          \<and> resposta_sugerida r = prefixoErro @ ''rate limited''
          \<and> (\<exists>pre suf. resposta_sugerida r = pre @ ''rate limited'' @ suf)
          \<and> resposta_sugerida r = [CHR 0xE2, CHR 0x9D, CHR 0x8C] @ '' Erro: rate limited''"
    by blast
  from failed_call_resolves_entry [OF k j i, of "\<lparr>error = None\<rparr>"]
  obtain s2 r2 where p2: "passo (EvResposta 0 (Falha \<lparr>error = None\<rparr>)) sessao_pendente = Some s2"
    and n': "mensagens (chat s2) ! 1
             = (mensagens (chat sessao_pendente) ! 1)\<lparr>ChatMessage.carregando := Some False, resultado := Some r2\<rparr>"
    and c2: "confianca r2 = 0"
    and z: "error \<lparr>error = None\<rparr> = None
              \<or> (\<exists>b. error \<lparr>error = None\<rparr> = Some b \<and> (detail b = None \<or> detail b = Some []))
            \<longrightarrow> resposta_sugerida r2
                  = [CHR 0xE2, CHR 0x9D, CHR 0x8C]
                    @ '' Erro: Erro ao classificar email. Tente novamente.''"
    by blast
  from n' have n3: "resultado (mensagens (chat s2) ! 1) = Some r2" by simp
  from z have z2: "resposta_sugerida r2
                  = [CHR 0xE2, CHR 0x9D, CHR 0x8C]
                    @ '' Erro: Erro ao classificar email. Tente novamente.''"
    by simp
  from p2 n3 c2 z2
  have second: "\<exists>s' r. passo (EvResposta 0 (Falha \<lparr>error = None\<rparr>)) sessao_pendente = Some s'
          \<and> resultado (mensagens (chat s') ! 1) = Some r
          \<and> confianca r = 0
          \<and> resposta_sugerida r
              = [CHR 0xE2, CHR 0x9D, CHR 0x8C] @ '' Erro: Erro ao classificar email. Tente novamente.''"
    by blast
  from k j i first second show ?thesis by (intro conjI)
qed

text \<open>
  Claim C10. The synthetic result of a failed call has category \<open>Improdutivo\<close>,
  whatever the submission, the provider and the error; read through its category alone
  it is the same as the result of a successful call classified \<open>Improdutivo\<close>.
\<close>

theorem failure_category_is_improdutivo:
  assumes k: "k < length (emVoo s)"
    and j: "j < length (mensagens (chat s))"
    and i: "id_msg (mensagens (chat s) ! j) = messageId (emVoo s ! k)"
  shows "\<exists>s'. passo (EvResposta k (Falha err)) s = Some s'
           \<and> map_option categoria (resultado (mensagens (chat s') ! j)) = Some Improdutivo
           \<and> (\<forall>res. categoria res = Improdutivo \<longrightarrow>
                 (\<exists>s''. passo (EvResposta k (Next res)) s = Some s''
                    \<and> map_option categoria (resultado (mensagens (chat s'') ! j))
                        = map_option categoria (resultado (mensagens (chat s') ! j))))"
  using k j i
  by (simp add: resolver_def mensagens_handleErro mensagens_handleSucesso)

theorem failure_category_is_improdutivo_witness:
  "0 < length (emVoo sessao_pendente)
   \<and> 1 < length (mensagens (chat sessao_pendente))
   \<and> id_msg (mensagens (chat sessao_pendente) ! 1) = messageId (emVoo sessao_pendente ! 0)
   \<and> (\<exists>s'. passo (EvResposta 0 (Falha erro_rate_limited)) sessao_pendente = Some s'
          \<and> map_option categoria (resultado (mensagens (chat s') ! 1)) = Some Improdutivo)"
proof -
  have k: "0 < length (emVoo sessao_pendente)" by (simp add: emVoo_sessao_pendente)
  have j: "1 < length (mensagens (chat sessao_pendente))" by (simp add: mensagens_sessao_pendente)
  have i: "id_msg (mensagens (chat sessao_pendente) ! 1) = messageId (emVoo sessao_pendente ! 0)"
    by (simp add: mensagens_sessao_pendente emVoo_sessao_pendente)
  from failure_category_is_improdutivo [OF k j i, of erro_rate_limited] k j i
  show ?thesis by blast
qed

section \<open>Growth of the log\<close>

text \<open>
  Claim C1. In every reachable state of a session, a call of \<open>onEnviarTexto\<close> or of
  \<open>onEnviarArquivo\<close> appends exactly two entries to the log and leaves the entries
  before them as they are: first a user message (with \<open>conteudo\<close> for a text, with
  \<open>arquivo\<close> holding name and size and no \<open>conteudo\<close> for a file), then a pending
  assistant message (\<open>carregando\<close> true, no result) whose id is new in the log and is the
  id the call in flight will resolve. When a call in flight completes, with a result or
  with an error, exactly one entry of the log is replaced, the rest stays: the pending
  entry with the id of that call, which becomes resolved and keeps its id.
\<close>

theorem submissions_append_two_resolution_in_place:
  assumes run: "executar evs inicial = Some s"
  shows "(\<exists>s' u a. passo (EvTexto c p clk) s = Some s'
            \<and> mensagens (chat s') = mensagens (chat s) @ [u, a]
            \<and> tipo u = User \<and> conteudo u = Some c \<and> arquivo u = None
            \<and> pendente a \<and> resultado a = None
            \<and> id_msg a \<notin> id_msg ` set (mensagens (chat s))
            \<and> map messageId (emVoo s') = map messageId (emVoo s) @ [id_msg a])
       \<and> (\<exists>s' u a. passo (EvArquivo f p clk) s = Some s'
            \<and> mensagens (chat s') = mensagens (chat s) @ [u, a]
            \<and> tipo u = User \<and> conteudo u = None
            \<and> arquivo u = Some \<lparr>nome = name f, tamanho = size_file f\<rparr>
            \<and> pendente a \<and> resultado a = None
            \<and> id_msg a \<notin> id_msg ` set (mensagens (chat s))
            \<and> map messageId (emVoo s') = map messageId (emVoo s) @ [id_msg a])
       \<and> (\<forall>k < length (emVoo s).
             \<exists>s' j m'. passo (EvResposta k r) s = Some s'
               \<and> j < length (mensagens (chat s))
               \<and> id_msg (mensagens (chat s) ! j) = messageId (emVoo s ! k)
               \<and> pendente (mensagens (chat s) ! j)
               \<and> mensagens (chat s') = (mensagens (chat s))[j := m']
               \<and> resolvida m' \<and> resultado m' \<noteq> None
               \<and> id_msg m' = messageId (emVoo s ! k))"
proof (intro conjI allI impI)
  from run have ids: "ids_ok s" and voo: "voo_ok s"
    using alcancavel_inv by blast+
  have fr: "formatId (messageIdCounter (chat s) + 2) t \<notin> id_msg ` set (mensagens (chat s))" for t
    using ids by (rule id_fresco) simp
  from passo_texto[of c p clk s] obtain s' u a sub where
    "passo (EvTexto c p clk) s = Some s'"
    "mensagens (chat s') = mensagens (chat s) @ [u, a]"
    "tipo u = User" "conteudo u = Some c" "arquivo u = None"
    "pendente a" "resultado a = None"
    and ia: "id_msg a = formatId (messageIdCounter (chat s) + 2) (now_ai clk)"
    and v: "emVoo s' = emVoo s @ [sub]" "messageId sub = id_msg a"
    by blast
  moreover from ia fr have "id_msg a \<notin> id_msg ` set (mensagens (chat s))" by simp
  moreover from v have "map messageId (emVoo s') = map messageId (emVoo s) @ [id_msg a]" by simp
  ultimately show "\<exists>s' u a. passo (EvTexto c p clk) s = Some s'
            \<and> mensagens (chat s') = mensagens (chat s) @ [u, a]
            \<and> tipo u = User \<and> conteudo u = Some c \<and> arquivo u = None
            \<and> pendente a \<and> resultado a = None
            \<and> id_msg a \<notin> id_msg ` set (mensagens (chat s))
            \<and> map messageId (emVoo s') = map messageId (emVoo s) @ [id_msg a]"
    by blast
  from passo_arquivo[of f p clk s] obtain s' u a sub where
    "passo (EvArquivo f p clk) s = Some s'"
    "mensagens (chat s') = mensagens (chat s) @ [u, a]"
    "tipo u = User" "conteudo u = None" "arquivo u = Some \<lparr>nome = name f, tamanho = size_file f\<rparr>"
    "pendente a" "resultado a = None"
    and ia: "id_msg a = formatId (messageIdCounter (chat s) + 2) (now_ai clk)"
    and v: "emVoo s' = emVoo s @ [sub]" "messageId sub = id_msg a"
    by blast
  moreover from ia fr have "id_msg a \<notin> id_msg ` set (mensagens (chat s))" by simp
  moreover from v have "map messageId (emVoo s') = map messageId (emVoo s) @ [id_msg a]" by simp
  ultimately show "\<exists>s' u a. passo (EvArquivo f p clk) s = Some s'
            \<and> mensagens (chat s') = mensagens (chat s) @ [u, a]
            \<and> tipo u = User \<and> conteudo u = None
            \<and> arquivo u = Some \<lparr>nome = name f, tamanho = size_file f\<rparr>
            \<and> pendente a \<and> resultado a = None
            \<and> id_msg a \<notin> id_msg ` set (mensagens (chat s))
            \<and> map messageId (emVoo s') = map messageId (emVoo s) @ [id_msg a]"
    by blast
  fix k assume "k < length (emVoo s)"
  with ids voo show "\<exists>s' j m'. passo (EvResposta k r) s = Some s'
               \<and> j < length (mensagens (chat s))
               \<and> id_msg (mensagens (chat s) ! j) = messageId (emVoo s ! k)
               \<and> pendente (mensagens (chat s) ! j)
               \<and> mensagens (chat s') = (mensagens (chat s))[j := m']
               \<and> resolvida m' \<and> resultado m' \<noteq> None
               \<and> id_msg m' = messageId (emVoo s ! k)"
    by (rule resolucao_in_place)
qed

text \<open>
  At the session after one text submission: a second text, a file, and the completion of
  the call in flight.
\<close>

theorem submissions_append_two_resolution_in_place_witness:
  "executar [EvTexto ''Preciso de ajuda com pedido #123'' Openai relogio_exemplo] inicial
     = Some sessao_pendente
   \<and> length (mensagens (chat sessao_pendente)) = 2
   \<and> (\<exists>s' u a. passo (EvTexto ''Feliz Natal'' Gemini relogio_seguinte) sessao_pendente = Some s'
          \<and> mensagens (chat s') = mensagens (chat sessao_pendente) @ [u, a]
          \<and> tipo u = User \<and> conteudo u = Some ''Feliz Natal'' \<and> arquivo u = None
          \<and> pendente a \<and> resultado a = None
          \<and> id_msg a \<notin> id_msg ` set (mensagens (chat sessao_pendente))
          \<and> map messageId (emVoo s') = map messageId (emVoo sessao_pendente) @ [id_msg a])
   \<and> (\<exists>s' u a. passo (EvArquivo \<lparr>name = ''pedido.eml'', size_file = 100\<rparr> Gemini relogio_seguinte)
                   sessao_pendente = Some s'
          \<and> mensagens (chat s') = mensagens (chat sessao_pendente) @ [u, a]
          \<and> tipo u = User \<and> conteudo u = None
          \<and> arquivo u = Some \<lparr>nome = ''pedido.eml'', tamanho = 100\<rparr>
          \<and> pendente a \<and> resultado a = None
          \<and> id_msg a \<notin> id_msg ` set (mensagens (chat sessao_pendente))
          \<and> map messageId (emVoo s') = map messageId (emVoo sessao_pendente) @ [id_msg a])
   \<and> (\<exists>s' j m'. passo (EvResposta 0 (Next resultado_produtivo)) sessao_pendente = Some s'
          \<and> j < length (mensagens (chat sessao_pendente))
          \<and> id_msg (mensagens (chat sessao_pendente) ! j) = messageId (emVoo sessao_pendente ! 0)
          \<and> pendente (mensagens (chat sessao_pendente) ! j)
          \<and> mensagens (chat s') = (mensagens (chat sessao_pendente))[j := m']
          \<and> resolvida m' \<and> resultado m' \<noteq> None
          \<and> id_msg m' = messageId (emVoo sessao_pendente ! 0))"
proof -
  note t = submissions_append_two_resolution_in_place [OF executar_sessao_pendente,
      of "''Feliz Natal''" Gemini relogio_seguinte "\<lparr>name = ''pedido.eml'', size_file = 100\<rparr>"
         "Next resultado_produtivo"]
  have k: "0 < length (emVoo sessao_pendente)" by (simp add: emVoo_sessao_pendente)
  have l: "length (mensagens (chat sessao_pendente)) = 2" by (simp add: mensagens_sessao_pendente)
  from t have a: "\<exists>s' u a. passo (EvTexto ''Feliz Natal'' Gemini relogio_seguinte) sessao_pendente = Some s'
          \<and> mensagens (chat s') = mensagens (chat sessao_pendente) @ [u, a]
          \<and> tipo u = User \<and> conteudo u = Some ''Feliz Natal'' \<and> arquivo u = None
          \<and> pendente a \<and> resultado a = None
          \<and> id_msg a \<notin> id_msg ` set (mensagens (chat sessao_pendente))
          \<and> map messageId (emVoo s') = map messageId (emVoo sessao_pendente) @ [id_msg a]"
    by (rule conjunct1)
  from t have b: "\<exists>s' u a. passo (EvArquivo \<lparr>name = ''pedido.eml'', size_file = 100\<rparr> Gemini relogio_seguinte)
                   sessao_pendente = Some s'
          \<and> mensagens (chat s') = mensagens (chat sessao_pendente) @ [u, a]
          \<and> tipo u = User \<and> conteudo u = None
          \<and> arquivo u = Some \<lparr>nome = ''pedido.eml'', tamanho = 100\<rparr>
          \<and> pendente a \<and> resultado a = None
          \<and> id_msg a \<notin> id_msg ` set (mensagens (chat sessao_pendente))
          \<and> map messageId (emVoo s') = map messageId (emVoo sessao_pendente) @ [id_msg a]"
    by simp
  from t k have c: "\<exists>s' j m'. passo (EvResposta 0 (Next resultado_produtivo)) sessao_pendente = Some s'
          \<and> j < length (mensagens (chat sessao_pendente))
          \<and> id_msg (mensagens (chat sessao_pendente) ! j) = messageId (emVoo sessao_pendente ! 0)
          \<and> pendente (mensagens (chat sessao_pendente) ! j)
          \<and> mensagens (chat s') = (mensagens (chat sessao_pendente))[j := m']
          \<and> resolvida m' \<and> resultado m' \<noteq> None
          \<and> id_msg m' = messageId (emVoo sessao_pendente ! 0)"
    by blast
  from executar_sessao_pendente l a b c show ?thesis by (intro conjI)
qed

section \<open>Confidence of resolved entries\<close>

text \<open>
  Claim C4, as the code has it. In every reachable state every resolved entry has a
  result (never an absent one), and a failed call resolves its entry with confidence 0.
  \<open>handleSucesso\<close> stores the response of the backend as it arrives, with no check of
  its range: the confidence of every resolved entry lies within 0 and 1 provided every
  successful response delivered in the run had its confidence within 0 and 1.
\<close>

theorem resolved_entries_carry_results:
  assumes run: "executar evs inicial = Some s"
  shows "(\<forall>m \<in> set (mensagens (chat s)). resolvida m \<longrightarrow>
            (\<exists>r. resultado m = Some r
               \<and> (list_all resposta_valida evs \<longrightarrow> 0 \<le> confianca r \<and> confianca r \<le> 1)))
       \<and> (\<forall>k < length (emVoo s). \<forall>j < length (mensagens (chat s)).
            id_msg (mensagens (chat s) ! j) = messageId (emVoo s ! k) \<longrightarrow>
            (\<exists>s'. passo (EvResposta k (Falha err)) s = Some s'
               \<and> resolvida (mensagens (chat s') ! j)
               \<and> map_option confianca (resultado (mensagens (chat s') ! j)) = Some 0))"
proof (intro conjI ballI allI impI)
  fix m assume m: "m \<in> set (mensagens (chat s))" and rm: "resolvida m"
  from run have "log_ok s" using alcancavel_inv by blast
  with m rm obtain r where r: "resultado m = Some r"
    unfolding log_ok_def resolvida_def pendente_def by fastforce
  have "confianca_valida r" if v: "list_all resposta_valida evs"
  proof -
    from run v have "confiancas_ok s" using inicial_ok by (intro executar_confiancas[of evs inicial s]) simp_all
    with m r show ?thesis unfolding confiancas_ok_def by blast
  qed
  with r show "\<exists>r. resultado m = Some r
               \<and> (list_all resposta_valida evs \<longrightarrow> 0 \<le> confianca r \<and> confianca r \<le> 1)"
    by (simp add: confianca_valida_def)
next
  fix k j
  assume k: "k < length (emVoo s)" and j: "j < length (mensagens (chat s))"
    and i: "id_msg (mensagens (chat s) ! j) = messageId (emVoo s ! k)"
  from run have voo: "voo_ok s" and ids: "ids_ok s" using alcancavel_inv by blast+
  from k have "emVoo s ! k \<in> set (emVoo s)" by simp
  with voo obtain m where m: "m \<in> set (mensagens (chat s))"
    and im: "id_msg m = messageId (emVoo s ! k)" and pm: "pendente m"
    unfolding voo_ok_def by blast
  from m obtain j' where j': "j' < length (mensagens (chat s))" and mj: "mensagens (chat s) ! j' = m"
    by (auto simp: in_set_conv_nth)
  from ids have d: "distinct (map id_msg (mensagens (chat s)))" by (simp add: ids_ok_def)
  have "(map id_msg (mensagens (chat s)) ! j = map id_msg (mensagens (chat s)) ! j') = (j = j')"
    using d j j' by (intro nth_eq_iff_index_eq) simp_all
  with j j' i im mj have "j = j'" by simp
  with mj pm have t: "tipo (mensagens (chat s) ! j) = Ai" by (simp add: pendente_def)
  show "\<exists>s'. passo (EvResposta k (Falha err)) s = Some s'
               \<and> resolvida (mensagens (chat s') ! j)
               \<and> map_option confianca (resultado (mensagens (chat s') ! j)) = Some 0"
    using k j i t by (simp add: resolver_def mensagens_handleErro resolvida_def)
qed

text \<open>One submission answered with confidence 0.95.\<close>

theorem resolved_entries_carry_results_witness:
  "executar eventos_na_faixa inicial = Some (the (executar eventos_na_faixa inicial))
   \<and> list_all resposta_valida eventos_na_faixa
   \<and> mensagens (chat (the (executar eventos_na_faixa inicial))) ! 1
        \<in> set (mensagens (chat (the (executar eventos_na_faixa inicial))))
   \<and> resolvida (mensagens (chat (the (executar eventos_na_faixa inicial))) ! 1)
   \<and> (\<exists>r. resultado (mensagens (chat (the (executar eventos_na_faixa inicial))) ! 1) = Some r
          \<and> 0 \<le> confianca r \<and> confianca r \<le> 1)"
proof -
  let ?s = "the (executar eventos_na_faixa inicial)"
  have run: "executar eventos_na_faixa inicial = Some ?s"
    by (simp add: eventos_na_faixa_def resultado_produtivo_def run_eval)
  have v: "list_all resposta_valida eventos_na_faixa"
    by (simp add: eventos_na_faixa_def resultado_produtivo_def confianca_valida_def)
  have m: "mensagens (chat ?s) ! 1 \<in> set (mensagens (chat ?s))"
    by (simp add: eventos_na_faixa_def resultado_produtivo_def run_eval)
  have r: "resolvida (mensagens (chat ?s) ! 1)"
    by (simp add: eventos_na_faixa_def resultado_produtivo_def run_eval)
  from resolved_entries_carry_results [OF run, of erro_rate_limited] m r v
  have "\<exists>r. resultado (mensagens (chat ?s) ! 1) = Some r \<and> 0 \<le> confianca r \<and> confianca r \<le> 1"
    by blast
  with run v m r show ?thesis by (intro conjI)
qed

text \<open>
  The claim as written fails when the backend answers with a confidence of 1.5: the
  entry is resolved and carries 1.5.
\<close>

theorem confidence_out_of_range_counterexample:
  "executar eventos_fora_da_faixa inicial \<noteq> None
   \<and> resolvida (mensagens (chat (the (executar eventos_fora_da_faixa inicial))) ! 1)
   \<and> map_option confianca (resultado (mensagens (chat (the (executar eventos_fora_da_faixa inicial))) ! 1))
       = Some (3 / 2)
   \<and> \<not> ((3 / 2 :: real) \<le> 1)"
  using executar_fora_da_faixa by simp

section \<open>The busy flag\<close>

text \<open>
  Claim C7, as the code has it. \<open>handleSucesso\<close> and \<open>handleErro\<close> clear the busy
  flag whenever any call completes, and the component itself does not refuse a submission
  while busy; the gate is in the chat input, whose \<open>enviar\<close> emits nothing while its
  input \<open>carregando\<close> is true. In every state reached by events that pass through the
  chat input (no direct call of \<open>onEnviarTexto\<close> or \<open>onEnviarArquivo\<close>), with that
  input bound to the component's flag, at most one call is in flight, and the busy flag is
  true whenever a log entry is pending or a call is in flight; while it is true, \<open>enviar\<close>
  changes nothing.
\<close>

theorem busy_while_pending_behind_input_gate:
  assumes g: "list_all pela_entrada evs" and run: "executar evs inicial = Some s"
  shows "((\<exists>m \<in> set (mensagens (chat s)). pendente m) \<longrightarrow> carregando (chat s))
       \<and> (emVoo s \<noteq> [] \<longrightarrow> carregando (chat s))
       \<and> length (emVoo s) \<le> 1
       \<and> (carregando (chat s) \<longrightarrow> passo (EvEnviar inp clk) s = Some s)"
proof -
  from run g have gate: "gate_ok s"
    using inicial_ok by (intro executar_gate[of evs inicial s]) simp_all
  from run have voo: "voo_ok s" using alcancavel_inv by blast
  have "carregando (chat s)" if "m \<in> set (mensagens (chat s))" and "pendente m" for m
  proof -
    from voo that have "id_msg m \<in> messageId ` set (emVoo s)" unfolding voo_ok_def by blast
    then have "emVoo s \<noteq> []" by auto
    with gate show ?thesis by (simp add: gate_ok_def)
  qed
  moreover have "passo (EvEnviar inp clk) s = Some s" if "carregando (chat s)"
    using that by (simp add: enviar_ocupado)
  ultimately show ?thesis using gate unfolding gate_ok_def by blast
qed

text \<open>A text sent through the chat input; a second \<open>enviar\<close> while the call is out.\<close>

theorem busy_while_pending_behind_input_gate_witness:
  "list_all pela_entrada [EvEnviar entrada_exemplo relogio_exemplo]
   \<and> executar [EvEnviar entrada_exemplo relogio_exemplo] inicial = Some sessao_pendente
   \<and> pendente (mensagens (chat sessao_pendente) ! 1)
   \<and> emVoo sessao_pendente \<noteq> []
   \<and> carregando (chat sessao_pendente)
   \<and> passo (EvEnviar entrada_exemplo relogio_seguinte) sessao_pendente = Some sessao_pendente"
proof -
  have g: "list_all pela_entrada [EvEnviar entrada_exemplo relogio_exemplo]" by simp
  have p: "pendente (mensagens (chat sessao_pendente) ! 1)"
    by (simp add: mensagens_sessao_pendente pendente_def)
  have e: "emVoo sessao_pendente \<noteq> []" by (simp add: emVoo_sessao_pendente)
  from busy_while_pending_behind_input_gate [OF g executar_entrada_exemplo,
      of entrada_exemplo relogio_seguinte] e
  have c: "carregando (chat sessao_pendente)"
    and q: "passo (EvEnviar entrada_exemplo relogio_seguinte) sessao_pendente = Some sessao_pendente"
    by blast+
  from g executar_entrada_exemplo p e c q show ?thesis by (intro conjI)
qed

text \<open>
  The claim as written, for every interleaving of submissions and callbacks, fails: two
  direct submissions, then the completion of the first. The fourth entry is still
  pending, its call is in flight, and the busy flag is false.
\<close>

theorem busy_flag_cleared_early_counterexample:
  "executar eventos_concorrentes inicial \<noteq> None
   \<and> length (mensagens (chat (the (executar eventos_concorrentes inicial)))) = 4
   \<and> pendente (mensagens (chat (the (executar eventos_concorrentes inicial))) ! 3)
   \<and> length (emVoo (the (executar eventos_concorrentes inicial))) = 1
   \<and> \<not> carregando (chat (the (executar eventos_concorrentes inicial)))"
  by (simp add: eventos_concorrentes_def resultado_produtivo_def run_eval)

section \<open>Text or file, never both\<close>

text \<open>
  Claim C8. In the chat input, staged text and staged file exclude each other. A file
  that passes validation is staged and the text is emptied (\<open>onArquivoSelecionado\<close>);
  staging text unstages the file (the text entry of the specification, \<open>digitarTexto\<close>);
  \<open>enviar\<close> emits nothing, or the staged file, or, with no file staged, the trimmed
  text, so a submission carries a text or a file and never both; and after every run of
  the chat input from its initial state the text is empty or no file is staged.
\<close>

theorem staged_text_and_file_exclusive:
  "(toLowerCase (apos_ultimo_ponto (name f)) \<in> set formatosSuportados \<and> size_file f \<le> 5242880 \<longrightarrow>
      onArquivoSelecionado (Some (f # fs)) s
        = s\<lparr>arquivoSelecionado := Some f, conteudoEmail := [], erro := None\<rparr>)
   \<and> digitarTexto t s = s\<lparr>conteudoEmail := t, arquivoSelecionado := None\<rparr>
   \<and> (snd (enviar c p s) = None
        \<or> (\<exists>g. arquivoSelecionado s = Some g \<and> snd (enviar c p s) = Some (EnviarArquivo g p))
        \<or> (arquivoSelecionado s = None
             \<and> snd (enviar c p s) = Some (EnviarTexto (trim (conteudoEmail s)) p)))
   \<and> (conteudoEmail (executar_entrada evs novoChatInput) = []
        \<or> arquivoSelecionado (executar_entrada evs novoChatInput) = None)"
proof (intro conjI impI)
  assume "toLowerCase (apos_ultimo_ponto (name f)) \<in> set formatosSuportados \<and> size_file f \<le> 5242880"
  then show "onArquivoSelecionado (Some (f # fs)) s
        = s\<lparr>arquivoSelecionado := Some f, conteudoEmail := [], erro := None\<rparr>"
    by (simp add: onArquivoSelecionado_eq)
next
  show "digitarTexto t s = s\<lparr>conteudoEmail := t, arquivoSelecionado := None\<rparr>"
    by (simp add: digitarTexto_def)
next
  show "snd (enviar c p s) = None
        \<or> (\<exists>g. arquivoSelecionado s = Some g \<and> snd (enviar c p s) = Some (EnviarArquivo g p))
        \<or> (arquivoSelecionado s = None
             \<and> snd (enviar c p s) = Some (EnviarTexto (trim (conteudoEmail s)) p))"
    using enviar_cases[of c p s] by blast
next
  have "exclusivo novoChatInput" by (simp add: exclusivo_def novoChatInput_def)
  then have "exclusivo (executar_entrada evs novoChatInput)" by (rule executar_entrada_exclusivo)
  then show "conteudoEmail (executar_entrada evs novoChatInput) = []
        \<or> arquivoSelecionado (executar_entrada evs novoChatInput) = None"
    by (simp add: exclusivo_def)
qed

text \<open>A text typed and then a file selected; a file selected and then a text typed.\<close>

theorem staged_text_and_file_exclusive_witness:
  "toLowerCase (apos_ultimo_ponto ''pedido.eml'') \<in> set formatosSuportados
   \<and> (100::nat) \<le> 5242880
   \<and> onArquivoSelecionado (Some [\<lparr>name = ''pedido.eml'', size_file = 100\<rparr>]) entrada_exemplo
       = entrada_exemplo\<lparr>arquivoSelecionado := Some \<lparr>name = ''pedido.eml'', size_file = 100\<rparr>,
           conteudoEmail := [], erro := None\<rparr>
   \<and> conteudoEmail (executar_entrada
        [EntTexto ''Preciso de ajuda'', EntArquivo (Some [\<lparr>name = ''pedido.eml'', size_file = 100\<rparr>])]
        novoChatInput) = []
   \<and> arquivoSelecionado (executar_entrada
        [EntTexto ''Preciso de ajuda'', EntArquivo (Some [\<lparr>name = ''pedido.eml'', size_file = 100\<rparr>])]
        novoChatInput) = Some \<lparr>name = ''pedido.eml'', size_file = 100\<rparr>
   \<and> arquivoSelecionado (executar_entrada
        [EntArquivo (Some [\<lparr>name = ''pedido.eml'', size_file = 100\<rparr>]), EntTexto ''Preciso de ajuda'']
        novoChatInput) = None"
proof -
  have a: "toLowerCase (apos_ultimo_ponto ''pedido.eml'') \<in> set formatosSuportados"
    by (simp add: apos_ultimo_ponto_def toLowerCase_def char_eval formatosSuportados_def)
  have b: "(100::nat) \<le> 5242880" by simp
  note t = staged_text_and_file_exclusive
    [of "\<lparr>name = ''pedido.eml'', size_file = 100\<rparr>" "[]" entrada_exemplo "''Preciso de ajuda''"
        False Openai
        "[EntTexto ''Preciso de ajuda'', EntArquivo (Some [\<lparr>name = ''pedido.eml'', size_file = 100\<rparr>])]"]
  from t a b
  have c: "onArquivoSelecionado (Some [\<lparr>name = ''pedido.eml'', size_file = 100\<rparr>]) entrada_exemplo
       = entrada_exemplo\<lparr>arquivoSelecionado := Some \<lparr>name = ''pedido.eml'', size_file = 100\<rparr>,
           conteudoEmail := [], erro := None\<rparr>"
    by simp
  have d: "arquivoSelecionado (executar_entrada
        [EntTexto ''Preciso de ajuda'', EntArquivo (Some [\<lparr>name = ''pedido.eml'', size_file = 100\<rparr>])]
        novoChatInput) = Some \<lparr>name = ''pedido.eml'', size_file = 100\<rparr>"
    using a by (simp add: onArquivoSelecionado_eq digitarTexto_def)
  from t d
  have e: "conteudoEmail (executar_entrada
        [EntTexto ''Preciso de ajuda'', EntArquivo (Some [\<lparr>name = ''pedido.eml'', size_file = 100\<rparr>])]
        novoChatInput) = []"
    by simp
  have f: "arquivoSelecionado (executar_entrada
        [EntArquivo (Some [\<lparr>name = ''pedido.eml'', size_file = 100\<rparr>]), EntTexto ''Preciso de ajuda'']
        novoChatInput) = None"
    by (simp add: digitarTexto_def)
  from a b c e d f show ?thesis by (intro conjI)
qed

section \<open>What a submission leaves behind\<close>

text \<open>
  Claim C6 says that the log is written to durable storage after the two entries are
  appended and again after the pending entry is resolved, and that it is read from
  storage when the session starts. The component has no field, no injected service and
  no call for storage: its constructor only calls \<open>carregarProviders\<close>, and its handlers
  write the signals and issue the HTTP call. Evaluated at a fresh component, all that one
  text submission leaves is the new value of the fields and the call in flight, and all
  that its resolution leaves is the rewritten log and the cleared busy flag.
\<close>

theorem submission_state_is_in_memory_only:
  "inicial = \<lparr>chat = \<lparr>mensagens = [], carregando = False, providerSelecionado = Openai,
                        providers = None, shouldScrollToBottom = False, messageIdCounter = 0\<rparr>,
              emVoo = [], providersEmVoo = True\<rparr>
   \<and> passo (EvTexto ''Preciso de ajuda com pedido #123'' Openai relogio_exemplo) inicial
     = Some \<lparr>chat =
               \<lparr>mensagens =
                  [\<lparr>id_msg = formatId 1 1700000000000, tipo = User,
                     conteudo = Some ''Preciso de ajuda com pedido #123'', arquivo = None,
                     resultado = None, provider = None, timestamp = 1700000000000,
                     carregando = None, emailOriginal = None\<rparr>,
                   \<lparr>id_msg = formatId 2 1700000000001, tipo = Ai, conteudo = None,
                     arquivo = None, resultado = None, provider = Some Openai,
                     timestamp = 1700000000001, carregando = Some True,
                     emailOriginal = Some ''Preciso de ajuda com pedido #123''\<rparr>],
                carregando = True, providerSelecionado = Openai, providers = None,
                shouldScrollToBottom = True, messageIdCounter = 2\<rparr>,
             emVoo = [\<lparr>requisicao = ClassificarPorTexto ''Preciso de ajuda com pedido #123'' Openai,
                       messageId = formatId 2 1700000000001, provider_cb = Openai\<rparr>],
             providersEmVoo = True\<rparr>
   \<and> passo (EvResposta 0 (Next resultado_produtivo)) sessao_pendente
     = Some \<lparr>chat =
               \<lparr>mensagens =
                  [\<lparr>id_msg = formatId 1 1700000000000, tipo = User,
                     conteudo = Some ''Preciso de ajuda com pedido #123'', arquivo = None,
                     resultado = None, provider = None, timestamp = 1700000000000,
                     carregando = None, emailOriginal = None\<rparr>,
                   \<lparr>id_msg = formatId 2 1700000000001, tipo = Ai, conteudo = None,
                     arquivo = None, resultado = Some resultado_produtivo, provider = Some Openai,
                     timestamp = 1700000000001, carregando = Some False,
                     emailOriginal = Some ''Preciso de ajuda com pedido #123''\<rparr>],
                carregando = False, providerSelecionado = Openai, providers = None,
                shouldScrollToBottom = True, messageIdCounter = 2\<rparr>,
             emVoo = [], providersEmVoo = True\<rparr>"
proof (intro conjI)
  show "inicial = \<lparr>chat = \<lparr>mensagens = [], carregando = False, providerSelecionado = Openai,
                        providers = None, shouldScrollToBottom = False, messageIdCounter = 0\<rparr>,
              emVoo = [], providersEmVoo = True\<rparr>"
    by (simp add: inicial_def novoComponente_def)
qed (simp_all add: sessao_pendente_def emitir_def onEnviarTexto_def gerarId_def Let_def resolver_def
       handleSucesso_def remover_def inicial_def novoComponente_def formatId_eq_iff
       relogio_exemplo_def)

end
